theory Spec2Isabelle
  imports Main
begin

section \<open>Python values used by the rule checker\<close>

text \<open>
  A Python \<open>str\<close> is a sequence of Unicode code points, so a document is a list of
  natural numbers and \<open>length\<close> counts code points, as \<open>len\<close> does. String
  literals of the source are written with \<open>u\<close>; the two quote characters are written
  by their code points (39 and 34).
\<close>

type_synonym ustring = "nat list"

definition u :: "string \<Rightarrow> ustring" where
  "u s = map of_char s"

text \<open>
  The Unicode character tables of the interpreter are not part of the repository. They
  are a parameter of the model: \<open>\s\<close> and \<open>rstrip\<close> read \<open>isspace\<close>, \<open>\w\<close> and \<open>\b\<close>
  read \<open>isalnum\<close>, \<open>repr\<close> reads \<open>isprintable\<close>, a case-insensitive back reference
  compares \<open>tolower\<close> of single code points, and \<open>str.lower()\<close> is \<open>str_lower\<close>.
\<close>

record unicode_db =
  isspace :: "nat \<Rightarrow> bool"
  isalnum :: "nat \<Rightarrow> bool"
  isdigit :: "nat \<Rightarrow> bool"
  isprintable :: "nat \<Rightarrow> bool"
  tolower :: "nat \<Rightarrow> nat"
  str_lower :: "ustring \<Rightarrow> ustring"

text \<open>
  The interpreter's tables on ASCII. The white space table is the complete one, which
  is short; the other tables are the interpreter's on the code points below 128 and
  answer as for an unassigned code point from 128 on. The examples are ASCII texts, on
  which no other value is read.
\<close>

definition ascii_upper :: "nat \<Rightarrow> bool" where
  "ascii_upper c = (65 \<le> c \<and> c \<le> 90)"

definition ascii_lower :: "nat \<Rightarrow> bool" where
  "ascii_lower c = (97 \<le> c \<and> c \<le> 122)"

definition ascii_digit :: "nat \<Rightarrow> bool" where
  "ascii_digit c = (48 \<le> c \<and> c \<le> 57)"

definition ascii_tolower :: "nat \<Rightarrow> nat" where
  "ascii_tolower c = (if ascii_upper c then c + 32 else c)"

definition unicode_space :: "nat \<Rightarrow> bool" where
  "unicode_space c =
     ((9 \<le> c \<and> c \<le> 13) \<or> (28 \<le> c \<and> c \<le> 32) \<or> c = 133 \<or> c = 160 \<or> c = 5760
      \<or> (8192 \<le> c \<and> c \<le> 8202) \<or> c = 8232 \<or> c = 8233 \<or> c = 8239 \<or> c = 8287
      \<or> c = 12288)"

definition ascii_db :: unicode_db where
  "ascii_db =
     \<lparr>isspace = unicode_space,
      isalnum = (\<lambda>c. ascii_upper c \<or> ascii_lower c \<or> ascii_digit c),
      isdigit = ascii_digit,
      isprintable = (\<lambda>c. 32 \<le> c \<and> c \<le> 126),
      tolower = ascii_tolower,
      str_lower = map ascii_tolower\<rparr>"

datatype error = IndexError

definition err_bind :: "error + 'a \<Rightarrow> ('a \<Rightarrow> error + 'b) \<Rightarrow> error + 'b" where
  "err_bind r f = (case r of Inl e \<Rightarrow> Inl e | Inr x \<Rightarrow> f x)"

text \<open>\<open>text[i]\<close>: a negative index counts from the end, an index out of range raises.\<close>

definition py_index :: "ustring \<Rightarrow> int \<Rightarrow> error + nat" where
  "py_index text i =
     (let n = int (length text); j = (if i < 0 then n + i else i)
      in if 0 \<le> j \<and> j < n then Inr (text ! nat j) else Inl IndexError)"

text \<open>\<open>text[a:b]\<close>: negative bounds count from the end, then both are clipped.\<close>

definition slice_bound :: "int \<Rightarrow> int \<Rightarrow> nat" where
  "slice_bound n i = (if i < 0 then nat (max (n + i) 0) else nat (min i n))"

definition py_slice :: "ustring \<Rightarrow> int \<Rightarrow> int \<Rightarrow> ustring" where
  "py_slice text a b =
     (let n = int (length text); lo = slice_bound n a; hi = slice_bound n b
      in take (hi - lo) (drop lo text))"

text \<open>\<open>text.count(sub)\<close>: the occurrences of \<open>sub\<close>, left to right, not overlapping.\<close>

fun count_from :: "ustring \<Rightarrow> nat \<Rightarrow> ustring \<Rightarrow> nat" where
  "count_from sub skip [] = 0"
| "count_from sub skip (c # cs) =
     (if 0 < skip then count_from sub (skip - 1) cs
      else if take (length sub) (c # cs) = sub
        then Suc (count_from sub (length sub - 1) cs)
        else count_from sub 0 cs)"

definition py_count :: "ustring \<Rightarrow> ustring \<Rightarrow> nat" where
  "py_count text sub = (if sub = [] then Suc (length text) else count_from sub 0 text)"

text \<open>\<open>x in s\<close> for two strings.\<close>

fun py_in :: "ustring \<Rightarrow> ustring \<Rightarrow> bool" where
  "py_in x [] = (x = [])"
| "py_in x (c # cs) = (take (length x) (c # cs) = x \<or> py_in x cs)"

text \<open>\<open>text.split('\n')\<close> and \<open>line.rstrip()\<close>.\<close>

fun split_nl :: "ustring \<Rightarrow> ustring list" where
  "split_nl [] = [[]]"
| "split_nl (c # cs) =
     (if c = 10 then [] # split_nl cs
      else (c # hd (split_nl cs)) # tl (split_nl cs))"

definition rstrip :: "unicode_db \<Rightarrow> ustring \<Rightarrow> ustring" where
  "rstrip db line = rev (dropWhile (isspace db) (rev line))"

text \<open>\<open>sep.join(parts)\<close>.\<close>

fun py_join :: "ustring \<Rightarrow> ustring list \<Rightarrow> ustring" where
  "py_join sep [] = []"
| "py_join sep [x] = x"
| "py_join sep (x # y # ys) = x @ sep @ py_join sep (y # ys)"

text \<open>\<open>str(n)\<close> of an integer, as an f-string formats it.\<close>

function str_nat :: "nat \<Rightarrow> ustring" where
  "str_nat n = (if n < 10 then [48 + n] else str_nat (n div 10) @ [48 + n mod 10])"
  by pat_completeness auto
termination
  by (relation "measure id") auto

declare str_nat.simps [simp del]

definition str_int :: "int \<Rightarrow> ustring" where
  "str_int i = (if i < 0 then 45 # str_nat (nat (- i)) else str_nat (nat i))"

text \<open>
  \<open>repr(s)\<close> of a string: double quotes when the string has a single quote and no
  double quote, single quotes otherwise; the quote and the backslash escaped, then the
  named escapes, then hexadecimal escapes for what does not print.
\<close>

definition hex_digit :: "nat \<Rightarrow> nat" where
  "hex_digit d = (if d < 10 then 48 + d else 87 + d)"

fun hex_fixed :: "nat \<Rightarrow> nat \<Rightarrow> ustring" where
  "hex_fixed 0 c = []"
| "hex_fixed (Suc k) c = hex_fixed k (c div 16) @ [hex_digit (c mod 16)]"

definition repr_char :: "unicode_db \<Rightarrow> nat \<Rightarrow> nat \<Rightarrow> ustring" where
  "repr_char db quote c =
     (if c = quote \<or> c = 92 then [92, c]
      else if c = 9 then [92, 116]
      else if c = 10 then [92, 110]
      else if c = 13 then [92, 114]
      else if c < 32 \<or> c = 127 then [92, 120] @ hex_fixed 2 c
      else if c < 127 then [c]
      else if isprintable db c then [c]
      else if c \<le> 255 then [92, 120] @ hex_fixed 2 c
      else if c \<le> 65535 then [92, 117] @ hex_fixed 4 c
      else [92, 85] @ hex_fixed 8 c)"

definition py_repr :: "unicode_db \<Rightarrow> ustring \<Rightarrow> ustring" where
  "py_repr db s =
     (let quote = (if 39 \<in> set s \<and> 34 \<notin> set s then 34 else 39)
      in [quote] @ concat (map (repr_char db quote) s) @ [quote])"

section \<open>The data model of the rule checker\<close>

text \<open>
  \<open>RuleMatch\<close>: the fields \<open>text\<close> and \<open>context\<close> of the source are \<open>match_text\<close> and
  \<open>match_context\<close> here.
\<close>

record rule_match =
  rule_id :: ustring
  rule_name :: ustring
  category :: ustring
  severity :: ustring
  match_text :: ustring
  suggestion :: ustring
  location :: ustring
  match_context :: ustring

record rule_checker =
  disabled_rules :: "ustring set"

text \<open>\<open>RuleChecker.__init__\<close>: \<open>set(disabled_rules or [])\<close>.\<close>

definition RuleChecker_init :: "ustring list option \<Rightarrow> rule_checker" where
  "RuleChecker_init disabled =
     \<lparr>disabled_rules = set (case disabled of None \<Rightarrow> [] | Some ids \<Rightarrow> ids)\<rparr>"

section \<open>Positional helpers\<close>

definition get_line_number :: "ustring \<Rightarrow> int \<Rightarrow> int" where
  "get_line_number text position = int (py_count (py_slice text 0 position) [10]) + 1"

definition get_context :: "ustring \<Rightarrow> int \<Rightarrow> int \<Rightarrow> int \<Rightarrow> ustring" where
  "get_context text start end context_chars =
     (let ctx_start = max 0 (start - context_chars);
          ctx_end = min (int (length text)) (end + context_chars);
          prefix = (if 0 < ctx_start then u ''...'' else []);
          suffix = (if ctx_end < int (length text) then u ''...'' else [])
      in prefix @ py_slice text ctx_start ctx_end @ suffix)"

section \<open>Regular expressions\<close>

text \<open>
  A match object: the span of the whole match (\<open>m.start()\<close>, \<open>m.end()\<close>) and the
  spans of the groups. \<open>m.group()\<close> is the text of the span, \<open>m.group(k)\<close> the text
  of group \<open>k\<close>, which raises when the pattern has no such group.
\<close>

record mobj =
  m_start :: nat
  m_end :: nat
  m_groups :: "(nat \<times> nat) list"

definition m_group :: "ustring \<Rightarrow> mobj \<Rightarrow> ustring" where
  "m_group text m = py_slice text (int (m_start m)) (int (m_end m))"

definition m_group_n :: "ustring \<Rightarrow> mobj \<Rightarrow> nat \<Rightarrow> error + ustring" where
  "m_group_n text m k =
     (if 1 \<le> k \<and> k \<le> length (m_groups m)
      then Inr (py_slice text (int (fst (m_groups m ! (k - 1)))) (int (snd (m_groups m ! (k - 1)))))
      else Inl IndexError)"

text \<open>
  \<open>re.finditer\<close>: the pattern is tried at each position from left to right, and after
  a match the scan goes on where the match ended. A pattern is a function that gives the
  match starting at a position, if there is one.
\<close>

function re_finditer :: "(ustring \<Rightarrow> nat \<Rightarrow> mobj option) \<Rightarrow> ustring \<Rightarrow> nat \<Rightarrow> mobj list" where
  "re_finditer p text i =
     (if length text < i then []
      else case p text i of
             None \<Rightarrow> re_finditer p text (Suc i)
           | Some m \<Rightarrow> m # re_finditer p text (if i < m_end m then m_end m else Suc i))"
  by pat_completeness auto
termination
  by (relation "measure (\<lambda>(p, text, i). Suc (length text) - i)") auto

declare re_finditer.simps [simp del]

text \<open>
  A greedy repetition takes the longest run first and gives characters back one at a
  time: \<open>countdown hi lo\<close> is the order in which the lengths are tried.
\<close>

definition run_len :: "(nat \<Rightarrow> bool) \<Rightarrow> ustring \<Rightarrow> nat \<Rightarrow> nat" where
  "run_len P text i = length (takeWhile P (drop i text))"

definition countdown :: "nat \<Rightarrow> nat \<Rightarrow> nat list" where
  "countdown hi lo = rev [lo..<Suc hi]"

fun first_some :: "('a \<Rightarrow> 'b option) \<Rightarrow> 'a list \<Rightarrow> 'b option" where
  "first_some f [] = None"
| "first_some f (x # xs) = (case f x of None \<Rightarrow> first_some f xs | Some y \<Rightarrow> Some y)"

definition is_word :: "unicode_db \<Rightarrow> nat \<Rightarrow> bool" where
  "is_word db c = (isalnum db c \<or> c = 95)"

definition is_punct :: "nat \<Rightarrow> bool" where
  "is_punct c = (c \<in> set (u ''.,;:!?''))"

definition ascii_letter :: "nat \<Rightarrow> bool" where
  "ascii_letter c = (ascii_upper c \<or> ascii_lower c)"

text \<open>\<open>\b\<close>: exactly one of the characters before and at the position is a word character.\<close>

definition at_boundary :: "unicode_db \<Rightarrow> ustring \<Rightarrow> nat \<Rightarrow> bool" where
  "at_boundary db text i =
     (let thatp = (0 < i \<and> i - 1 < length text \<and> is_word db (text ! (i - 1)));
          thisp = (i < length text \<and> is_word db (text ! i))
      in thisp \<noteq> thatp)"

text \<open>\<open>\1\<close> under \<open>re.IGNORECASE\<close>: the group's text again, compared code point by code point after \<open>tolower\<close>.\<close>

definition backref_ignorecase :: "unicode_db \<Rightarrow> ustring \<Rightarrow> nat \<Rightarrow> nat \<Rightarrow> nat \<Rightarrow> bool" where
  "backref_ignorecase db text s e p =
     (p + (e - s) \<le> length text \<and>
      map (tolower db) (take (e - s) (drop p text)) = map (tolower db) (take (e - s) (drop s text)))"

text \<open>\<^verbatim>\<open>r' {2,}'\<close>\<close>

definition re_double_spaces :: "ustring \<Rightarrow> nat \<Rightarrow> mobj option" where
  "re_double_spaces text i =
     (let k = run_len (\<lambda>c. c = 32) text i
      in if 2 \<le> k then Some \<lparr>m_start = i, m_end = i + k, m_groups = []\<rparr> else None)"

text \<open>\<^verbatim>\<open>r'\b(\w+)\s+\1\b'\<close> with \<open>re.IGNORECASE\<close>\<close>

definition re_repeated_words :: "unicode_db \<Rightarrow> ustring \<Rightarrow> nat \<Rightarrow> mobj option" where
  "re_repeated_words db text i =
     (if at_boundary db text i then
        first_some (\<lambda>n1.
          let j = i + n1 in
          first_some (\<lambda>n2.
            let p = j + n2 in
            if backref_ignorecase db text i j p \<and> at_boundary db text (p + n1)
            then Some \<lparr>m_start = i, m_end = p + n1, m_groups = [(i, j)]\<rparr>
            else None)
            (countdown (run_len (isspace db) text j) 1))
          (countdown (run_len (is_word db) text i) 1)
      else None)"

text \<open>\<^verbatim>\<open>r'([.,;:!?])([A-Za-z])'\<close>\<close>

definition re_missing_space :: "ustring \<Rightarrow> nat \<Rightarrow> mobj option" where
  "re_missing_space text i =
     (if Suc i < length text \<and> is_punct (text ! i) \<and> ascii_letter (text ! Suc i)
      then Some \<lparr>m_start = i, m_end = i + 2, m_groups = [(i, i + 1), (i + 1, i + 2)]\<rparr>
      else None)"

text \<open>\<^verbatim>\<open>r'(\w)\s+([.,;:!?])'\<close>\<close>

definition re_space_before_punct :: "unicode_db \<Rightarrow> ustring \<Rightarrow> nat \<Rightarrow> mobj option" where
  "re_space_before_punct db text i =
     (if i < length text \<and> is_word db (text ! i) then
        first_some (\<lambda>n.
          let p = Suc i + n in
          if p < length text \<and> is_punct (text ! p)
          then Some \<lparr>m_start = i, m_end = Suc p, m_groups = [(i, Suc i), (p, Suc p)]\<rparr>
          else None)
          (countdown (run_len (isspace db) text (Suc i)) 1)
      else None)"

text \<open>\<^verbatim>\<open>r'\n{3,}'\<close>\<close>

definition re_blank_lines :: "ustring \<Rightarrow> nat \<Rightarrow> mobj option" where
  "re_blank_lines text i =
     (let k = run_len (\<lambda>c. c = 10) text i
      in if 3 \<le> k then Some \<lparr>m_start = i, m_end = i + k, m_groups = []\<rparr> else None)"

text \<open>\<^verbatim>\<open>r'(\w)\s*--\s*(\w)'\<close>\<close>

definition re_double_hyphen :: "unicode_db \<Rightarrow> ustring \<Rightarrow> nat \<Rightarrow> mobj option" where
  "re_double_hyphen db text i =
     (if i < length text \<and> is_word db (text ! i) then
        first_some (\<lambda>n1.
          let j = Suc i + n1 in
          if Suc j < length text \<and> text ! j = 45 \<and> text ! Suc j = 45 then
            first_some (\<lambda>n2.
              let p = j + 2 + n2 in
              if p < length text \<and> is_word db (text ! p)
              then Some \<lparr>m_start = i, m_end = Suc p, m_groups = [(i, Suc i), (p, Suc p)]\<rparr>
              else None)
              (countdown (run_len (isspace db) text (j + 2)) 0)
          else None)
          (countdown (run_len (isspace db) text (Suc i)) 0)
      else None)"

text \<open>
  The loop \<open>for m in re.finditer(...)\<close> of a check: the body gives \<open>None\<close> where the
  source says \<open>continue\<close> and the match it appends otherwise; an exception in the body
  ends the loop.
\<close>

fun for_matches :: "(mobj \<Rightarrow> error + rule_match option) \<Rightarrow> mobj list \<Rightarrow> error + rule_match list" where
  "for_matches body [] = Inr []"
| "for_matches body (m # ms) =
     err_bind (body m) (\<lambda>r.
       err_bind (for_matches body ms) (\<lambda>rs.
         Inr (case r of None \<Rightarrow> rs | Some x \<Rightarrow> x # rs)))"

section \<open>The twelve checks\<close>

subsection \<open>double-spaces\<close>

definition double_spaces_match :: "unicode_db \<Rightarrow> ustring \<Rightarrow> mobj \<Rightarrow> rule_match" where
  "double_spaces_match db text m =
     \<lparr>rule_id = u ''double-spaces'',
      rule_name = u ''Double Spaces'',
      category = u ''spacing'',
      severity = u ''medium'',
      match_text = py_repr db (m_group text m),
      suggestion = u ''Replace with single space'',
      location = u ''Line '' @ str_int (get_line_number text (int (m_start m)))
                 @ u '', position '' @ str_int (int (m_start m)),
      match_context = get_context text (int (m_start m)) (int (m_end m)) 30\<rparr>"

definition double_spaces_body :: "unicode_db \<Rightarrow> ustring \<Rightarrow> mobj \<Rightarrow> error + rule_match option" where
  "double_spaces_body db text m =
     (if int (m_start m) = 0 then Inr None
      else err_bind (py_index text (int (m_start m) - 1)) (\<lambda>c.
        if c = 10 then Inr None
        else Inr (Some (double_spaces_match db text m))))"

definition check_double_spaces :: "unicode_db \<Rightarrow> ustring \<Rightarrow> error + rule_match list" where
  "check_double_spaces db text =
     for_matches (double_spaces_body db text) (re_finditer re_double_spaces text 0)"

subsection \<open>repeated-words\<close>

definition repeated_words_body :: "unicode_db \<Rightarrow> ustring \<Rightarrow> mobj \<Rightarrow> error + rule_match option" where
  "repeated_words_body db text m =
     err_bind (m_group_n text m 1) (\<lambda>g1.
       let word = str_lower db g1 in
       if word \<in> {u ''that'', u ''had'', u ''very'', u ''really'', u ''blah''} then Inr None
       else Inr (Some
         \<lparr>rule_id = u ''repeated-words'',
          rule_name = u ''Repeated Word'',
          category = u ''grammar'',
          severity = u ''high'',
          match_text = m_group text m,
          suggestion = u ''Remove duplicate '' @ [39] @ g1 @ [39],
          location = u ''Line '' @ str_int (get_line_number text (int (m_start m))),
          match_context = get_context text (int (m_start m)) (int (m_end m)) 30\<rparr>))"

definition check_repeated_words :: "unicode_db \<Rightarrow> ustring \<Rightarrow> error + rule_match list" where
  "check_repeated_words db text =
     for_matches (repeated_words_body db text) (re_finditer (re_repeated_words db) text 0)"

subsection \<open>missing-space-after-punct\<close>

definition url_markers :: "ustring list" where
  "url_markers = [u ''http'', u ''www.'', u ''ftp'', u ''.com'', u ''.org'']"

definition missing_space_match :: "ustring \<Rightarrow> mobj \<Rightarrow> error + rule_match option" where
  "missing_space_match text m =
     err_bind (m_group_n text m 1) (\<lambda>g1.
     err_bind (m_group_n text m 2) (\<lambda>g2.
       Inr (Some
         \<lparr>rule_id = u ''missing-space-after-punct'',
          rule_name = u ''Missing Space After Punctuation'',
          category = u ''spacing'',
          severity = u ''medium'',
          match_text = m_group text m,
          suggestion = g1 @ u '' '' @ g2,
          location = u ''Line '' @ str_int (get_line_number text (int (m_start m))),
          match_context = get_context text (int (m_start m)) (int (m_end m)) 30\<rparr>)))"

definition missing_space_body :: "unicode_db \<Rightarrow> ustring \<Rightarrow> mobj \<Rightarrow> error + rule_match option" where
  "missing_space_body db text m =
     (let before = py_slice text (max 0 (int (m_start m) - 10)) (int (m_start m)) in
      if list_ex (\<lambda>x. py_in x (str_lower db before)) url_markers then Inr None
      else err_bind (m_group_n text m 1) (\<lambda>g1.
        if g1 = u ''.'' \<and> 0 < int (m_start m) then
          err_bind (py_index text (int (m_start m) - 1)) (\<lambda>c.
            if isdigit db c then Inr None else missing_space_match text m)
        else missing_space_match text m))"

definition check_missing_space_after_punct :: "unicode_db \<Rightarrow> ustring \<Rightarrow> error + rule_match list" where
  "check_missing_space_after_punct db text =
     for_matches (missing_space_body db text) (re_finditer re_missing_space text 0)"

subsection \<open>space-before-punct\<close>

definition space_before_punct_body :: "ustring \<Rightarrow> mobj \<Rightarrow> error + rule_match option" where
  "space_before_punct_body text m =
     err_bind (m_group_n text m 1) (\<lambda>g1.
     err_bind (m_group_n text m 2) (\<lambda>g2.
       Inr (Some
         \<lparr>rule_id = u ''space-before-punct'',
          rule_name = u ''Space Before Punctuation'',
          category = u ''spacing'',
          severity = u ''medium'',
          match_text = m_group text m,
          suggestion = g1 @ g2,
          location = u ''Line '' @ str_int (get_line_number text (int (m_start m))),
          match_context = get_context text (int (m_start m)) (int (m_end m)) 30\<rparr>)))"

definition check_space_before_punct :: "unicode_db \<Rightarrow> ustring \<Rightarrow> error + rule_match list" where
  "check_space_before_punct db text =
     for_matches (space_before_punct_body text) (re_finditer (re_space_before_punct db) text 0)"

subsection \<open>unclosed-brackets\<close>

definition bracket_pairs :: "(nat \<times> nat) list" where
  "bracket_pairs = [(40, 41), (91, 93), (123, 125)]"

text \<open>The body of the loop over the pairs: what it appends for one pair.\<close>

definition unclosed_step :: "ustring \<Rightarrow> nat \<times> nat \<Rightarrow> rule_match list" where
  "unclosed_step text pair =
     (let open_char = fst pair; close_char = snd pair;
          open_count = int (py_count text [open_char]);
          close_count = int (py_count text [close_char])
      in if open_count \<noteq> close_count then
           (let diff = open_count - close_count in
            if 0 < diff then
              [\<lparr>rule_id = u ''unclosed-brackets'',
                rule_name = u ''Unclosed Bracket'',
                category = u ''formatting'',
                severity = u ''high'',
                match_text = str_int diff @ u '' unclosed '' @ [39, open_char, 39],
                suggestion = u ''Add '' @ str_int diff @ u '' closing '' @ [39, close_char, 39],
                location = u ''Document-wide'',
                match_context = u ''Found '' @ str_int open_count @ u '' '' @ [39, open_char, 39]
                  @ u '' but only '' @ str_int close_count @ u '' '' @ [39, close_char, 39]\<rparr>]
            else
              [\<lparr>rule_id = u ''unclosed-brackets'',
                rule_name = u ''Extra Closing Bracket'',
                category = u ''formatting'',
                severity = u ''high'',
                match_text = str_int (- diff) @ u '' extra '' @ [39, close_char, 39],
                suggestion = u ''Remove '' @ str_int (- diff) @ u '' extra '' @ [39, close_char, 39]
                  @ u '' or add opening '' @ [39, open_char, 39],
                location = u ''Document-wide'',
                match_context = u ''Found '' @ str_int close_count @ u '' '' @ [39, close_char, 39]
                  @ u '' but only '' @ str_int open_count @ u '' '' @ [39, open_char, 39]\<rparr>])
         else [])"

definition check_unclosed_brackets :: "ustring \<Rightarrow> rule_match list" where
  "check_unclosed_brackets text =
     foldl (\<lambda>matches pair. matches @ unclosed_step text pair) [] bracket_pairs"

subsection \<open>trailing-whitespace\<close>

definition check_trailing_whitespace :: "unicode_db \<Rightarrow> ustring \<Rightarrow> rule_match list" where
  "check_trailing_whitespace db text =
     (let lines = split_nl text;
          trailing_count =
            foldl (\<lambda>n line. if line \<noteq> rstrip db line then n + 1 else n) (0 :: int) lines
      in if 0 < trailing_count then
           [\<lparr>rule_id = u ''trailing-whitespace'',
             rule_name = u ''Trailing Whitespace'',
             category = u ''formatting'',
             severity = u ''low'',
             match_text = str_int trailing_count @ u '' line(s) with trailing whitespace'',
             suggestion = u ''Remove trailing spaces'',
             location = u ''Multiple lines'',
             match_context = u ''Found in '' @ str_int trailing_count @ u '' of ''
               @ str_int (int (length lines)) @ u '' lines''\<rparr>]
         else [])"

subsection \<open>multiple-blank-lines\<close>

definition blank_lines_body :: "ustring \<Rightarrow> mobj \<Rightarrow> error + rule_match option" where
  "blank_lines_body text m =
     (let num_blanks = int (length (m_group text m)) - 1 in
      Inr (Some
        \<lparr>rule_id = u ''multiple-blank-lines'',
         rule_name = u ''Multiple Blank Lines'',
         category = u ''formatting'',
         severity = u ''low'',
         match_text = str_int num_blanks @ u '' consecutive blank lines'',
         suggestion = u ''Reduce to single blank line'',
         location = u ''Line '' @ str_int (get_line_number text (int (m_start m))),
         match_context = u ''Excessive vertical spacing''\<rparr>))"

definition check_multiple_blank_lines :: "ustring \<Rightarrow> error + rule_match list" where
  "check_multiple_blank_lines text =
     for_matches (blank_lines_body text) (re_finditer re_blank_lines text 0)"

subsection \<open>inconsistent-quotes\<close>

text \<open>
  In the source as it stands the characters counted as curly quotes are the ASCII
  quotes. Where it reads \<open>text.count(\<close> followed by three single quotes, the three
  quotes open a string literal that runs to the next three, so the two calls written
  there are one call, which counts the occurrences of \<^verbatim>\<open>) + text.count(\<close>.
\<close>

definition triple_quoted :: ustring where
  "triple_quoted = u '') + text.count(''"

definition check_inconsistent_quotes :: "ustring \<Rightarrow> rule_match list" where
  "check_inconsistent_quotes text =
     (let straight_double = int (py_count text [34]);
          curly_double = int (py_count text [34]) + int (py_count text [34]);
          straight_single = int (py_count text [39]);
          curly_single = int (py_count text triple_quoted);
          matches1 =
            (if 0 < straight_double \<and> 0 < curly_double then
               [\<lparr>rule_id = u ''inconsistent-quotes'',
                 rule_name = u ''Inconsistent Double Quotes'',
                 category = u ''formatting'',
                 severity = u ''low'',
                 match_text = u ''Mix of '' @ [34] @ u '' ('' @ str_int straight_double
                   @ u '') and '' @ [34, 34] @ u ''/'' @ [34, 34] @ u '' (''
                   @ str_int curly_double @ u '')'',
                 suggestion = u ''Use consistent quote style throughout'',
                 location = u ''Document-wide'',
                 match_context = u ''Consider using curly quotes for published documents''\<rparr>]
             else []);
          matches2 =
            (if 0 < straight_single \<and> 0 < curly_single then
               (if 3 < straight_single \<and> 3 < curly_single then
                  [\<lparr>rule_id = u ''inconsistent-quotes'',
                    rule_name = u ''Inconsistent Single Quotes/Apostrophes'',
                    category = u ''formatting'',
                    severity = u ''low'',
                    match_text = u ''Mix of '' @ [39] @ u '' ('' @ str_int straight_single
                      @ u '') and '' @ [39, 39] @ u ''/'' @ [39, 96] @ u '' (''
                      @ str_int curly_single @ u '')'',
                    suggestion = u ''Use consistent apostrophe style'',
                    location = u ''Document-wide'',
                    match_context = u ''May indicate copy-paste from different sources''\<rparr>]
                else [])
             else [])
      in matches1 @ matches2)"

subsection \<open>tab-characters\<close>

definition check_tab_characters :: "ustring \<Rightarrow> rule_match list" where
  "check_tab_characters text =
     (let tab_count = int (py_count text [9])
      in if 0 < tab_count then
           [\<lparr>rule_id = u ''tab-characters'',
             rule_name = u ''Tab Characters'',
             category = u ''formatting'',
             severity = u ''low'',
             match_text = str_int tab_count @ u '' tab character(s)'',
             suggestion = u ''Replace tabs with spaces for consistent formatting'',
             location = u ''Multiple locations'',
             match_context = u ''Tabs may render inconsistently across applications''\<rparr>]
         else [])"

subsection \<open>double-hyphen-emdash\<close>

definition double_hyphen_body :: "ustring \<Rightarrow> mobj \<Rightarrow> error + rule_match option" where
  "double_hyphen_body text m =
     err_bind (m_group_n text m 1) (\<lambda>g1.
     err_bind (m_group_n text m 2) (\<lambda>g2.
       Inr (Some
         \<lparr>rule_id = u ''double-hyphen-emdash'',
          rule_name = u ''Double Hyphen Instead of Em-Dash'',
          category = u ''formatting'',
          severity = u ''low'',
          match_text = m_group text m,
          suggestion = g1 @ [8212] @ g2,
          location = u ''Line '' @ str_int (get_line_number text (int (m_start m))),
          match_context = get_context text (int (m_start m)) (int (m_end m)) 30\<rparr>)))"

definition check_double_hyphen_emdash :: "unicode_db \<Rightarrow> ustring \<Rightarrow> error + rule_match list" where
  "check_double_hyphen_emdash db text =
     for_matches (double_hyphen_body text) (re_finditer (re_double_hyphen db) text 0)"

subsection \<open>hidden-characters\<close>

text \<open>A dictionary keeps its keys in the order of their first insertion.\<close>

fun dict_set :: "'k \<Rightarrow> 'v \<Rightarrow> ('k \<times> 'v) list \<Rightarrow> ('k \<times> 'v) list" where
  "dict_set k v [] = [(k, v)]"
| "dict_set k v ((k', v') # d) = (if k' = k then (k, v) # d else (k', v') # dict_set k v d)"

definition hidden_chars :: "(nat \<times> ustring) list" where
  "hidden_chars =
     [(8203, u ''zero-width space''),
      (8204, u ''zero-width non-joiner''),
      (8205, u ''zero-width joiner''),
      (65279, u ''byte order mark''),
      (160, u ''non-breaking space''),
      (8288, u ''word joiner'')]"

definition check_hidden_characters :: "ustring \<Rightarrow> rule_match list" where
  "check_hidden_characters text =
     (let found =
            foldl (\<lambda>found item.
                     let count = int (py_count text [fst item])
                     in if 0 < count then dict_set (snd item) count found else found)
              [] hidden_chars
      in if found \<noteq> [] then
           (let details = py_join (u '', '') (map (\<lambda>item. fst item @ u '': '' @ str_int (snd item)) found)
            in [\<lparr>rule_id = u ''hidden-characters'',
                 rule_name = u ''Hidden Characters'',
                 category = u ''formatting'',
                 severity = u ''medium'',
                 match_text = u ''Found hidden characters'',
                 suggestion = u ''Remove hidden characters that may cause display issues'',
                 location = u ''Document-wide'',
                 match_context = details\<rparr>])
         else [])"

subsection \<open>straight-vs-curly-quotes\<close>

definition check_straight_vs_curly_quotes :: "ustring \<Rightarrow> rule_match list" where
  "check_straight_vs_curly_quotes text =
     (let straight_quotes = int (py_count text [34]) + int (py_count text [39]);
          curly_quotes = int (py_count text [34]) + int (py_count text [34])
                         + int (py_count text triple_quoted)
      in if 10 < straight_quotes \<and> curly_quotes = 0 then
           [\<lparr>rule_id = u ''straight-vs-curly-quotes'',
             rule_name = u ''Straight Quotes Only'',
             category = u ''formatting'',
             severity = u ''low'',
             match_text = str_int straight_quotes @ u '' straight quotes'',
             suggestion = u ''Consider using curly quotes for professional documents'',
             location = u ''Document-wide'',
             match_context = u ''Straight quotes are fine for code/technical docs''\<rparr>]
         else [])"

section \<open>The dispatcher\<close>

text \<open>
  \<open>check_all\<close> is twelve statements of one shape, in this order: when the rule id is
  not in \<open>disabled_rules\<close>, the check runs and its matches extend the list.
\<close>

definition checks :: "unicode_db \<Rightarrow> ustring \<Rightarrow> (ustring \<times> (error + rule_match list)) list" where
  "checks db text =
     [(u ''double-spaces'', check_double_spaces db text),
      (u ''repeated-words'', check_repeated_words db text),
      (u ''missing-space-after-punct'', check_missing_space_after_punct db text),
      (u ''space-before-punct'', check_space_before_punct db text),
      (u ''unclosed-brackets'', Inr (check_unclosed_brackets text)),
      (u ''trailing-whitespace'', Inr (check_trailing_whitespace db text)),
      (u ''multiple-blank-lines'', check_multiple_blank_lines text),
      (u ''inconsistent-quotes'', Inr (check_inconsistent_quotes text)),
      (u ''tab-characters'', Inr (check_tab_characters text)),
      (u ''double-hyphen-emdash'', check_double_hyphen_emdash db text),
      (u ''hidden-characters'', Inr (check_hidden_characters text)),
      (u ''straight-vs-curly-quotes'', Inr (check_straight_vs_curly_quotes text))]"

definition extend_if_enabled ::
  "rule_checker \<Rightarrow> error + rule_match list \<Rightarrow> ustring \<times> (error + rule_match list)
     \<Rightarrow> error + rule_match list" where
  "extend_if_enabled self acc chk =
     err_bind acc (\<lambda>matches.
       if fst chk \<notin> disabled_rules self
       then err_bind (snd chk) (\<lambda>found. Inr (matches @ found))
       else Inr matches)"

definition check_all :: "unicode_db \<Rightarrow> rule_checker \<Rightarrow> ustring \<Rightarrow> error + rule_match list" where
  "check_all db self text = foldl (extend_if_enabled self) (Inr []) (checks db text)"

text \<open>The declared order of the rule ids.\<close>

definition catalogue :: "ustring list" where
  "catalogue =
     [u ''double-spaces'', u ''repeated-words'', u ''missing-space-after-punct'',
      u ''space-before-punct'', u ''unclosed-brackets'', u ''trailing-whitespace'',
      u ''multiple-blank-lines'', u ''inconsistent-quotes'', u ''tab-characters'',
      u ''double-hyphen-emdash'', u ''hidden-characters'', u ''straight-vs-curly-quotes'']"


section \<open>Facts about the helpers\<close>

lemma err_bind_Inr [simp]: "err_bind (Inr x) f = f x"
  by (simp add: err_bind_def)

lemma err_bind_Inl [simp]: "err_bind (Inl e) f = Inl e"
  by (simp add: err_bind_def)

lemma count_from_single:
  "count_from [c] 0 text = length (filter (\<lambda>x. x = c) text)"
  by (induction "text") auto

lemma py_count_single: "py_count text [c] = length (filter (\<lambda>x. x = c) text)"
  by (simp add: py_count_def count_from_single)

lemma py_slice_nonneg:
  "0 \<le> a \<Longrightarrow> 0 \<le> b \<Longrightarrow>
   py_slice text a b =
     take (nat (min b (int (length text))) - nat (min a (int (length text))))
       (drop (nat (min a (int (length text)))) text)"
  by (simp add: py_slice_def slice_bound_def Let_def)

lemma py_slice_nat:
  "py_slice text (int a) (int b) = take (min b (length text) - a) (drop a text)"
  by (auto simp: py_slice_def slice_bound_def Let_def min_def)

lemma str_nat_digit: "n < 10 \<Longrightarrow> str_nat n = [48 + n]"
  by (simp add: str_nat.simps)

lemma str_nat_more: "10 \<le> n \<Longrightarrow> str_nat n = str_nat (n div 10) @ [48 + n mod 10]"
  by (subst str_nat.simps) simp

lemma str_int_nat: "str_int (int n) = str_nat n"
  by (simp add: str_int_def)

lemma foldl_append_concat:
  "foldl (\<lambda>acc x. acc @ f x) a xs = a @ concat (map f xs)"
  by (induction xs arbitrary: a) auto

section \<open>The context window\<close>

text \<open>
  C8. For a span with \<open>0 \<le> start \<le> end \<le> len(text)\<close>, \<open>_get_context\<close> returns the
  characters of the text from 30 before \<open>start\<close> (or from the first, when there are fewer)
  to 30 after \<open>end\<close> (or to the last), with \<open>...\<close> in front exactly when the window begins
  after the first character of the document and \<open>...\<close> behind exactly when it stops before
  the last. The helper has no failing branch: a slice never raises.
\<close>

theorem get_context_window:
  assumes "0 \<le> start" and "start \<le> end" and "end \<le> int (length text)"
  shows "get_context text start end 30 =
           (if 30 < start then u ''...'' else [])
           @ take (nat (min (int (length text)) (end + 30)) - nat (start - 30))
               (drop (nat (start - 30)) text)
           @ (if end + 30 < int (length text) then u ''...'' else [])"
proof -
  let ?n = "int (length text)"
  let ?lo = "max 0 (start - 30)"
  let ?hi = "min ?n (end + 30)"
  have lo: "0 \<le> ?lo" and hi: "0 \<le> ?hi"
    using assms by simp_all
  have a: "nat (min ?lo ?n) = nat (start - 30)"
    using assms by (simp add: min_def max_def)
  have b: "nat (min ?hi ?n) = nat ?hi"
    by (simp add: min_def)
  have c: "(0 < ?lo) = (30 < start)"
    by (simp add: max_def)
  have d: "(?hi < ?n) = (end + 30 < ?n)"
    by (simp add: min_def)
  show ?thesis
    unfolding get_context_def Let_def py_slice_nonneg [OF lo hi] a b c d
    by simp
qed

theorem get_context_window_witness:
  "(0::int) \<le> 32 \<and> (32::int) \<le> 34 \<and> (34::int) \<le> int (length (replicate 32 97 @ [32, 32] @ replicate 31 98))
   \<and> get_context (replicate 32 97 @ [32, 32] @ replicate 31 98) 32 34 30 =
       u ''...'' @ replicate 30 97 @ [32, 32] @ replicate 30 98 @ u ''...''"
proof -
  have h1: "(0::int) \<le> 32" and h2: "(32::int) \<le> 34"
    and h3: "(34::int) \<le> int (length (replicate 32 97 @ [32, 32] @ replicate 31 (98::nat)))"
    by simp_all
  have r: "drop 2 (replicate 32 (97::nat)) = replicate 30 97"
    "take 30 (replicate 31 (98::nat)) = replicate 30 98"
    by simp_all
  show ?thesis
    using h1 h2 h3 get_context_window [OF h1 h2 h3]
    by (simp add: r)
qed


section \<open>Bracket balance\<close>

lemma check_unclosed_brackets_concat:
  "check_unclosed_brackets text = concat (map (unclosed_step text) bracket_pairs)"
  by (simp add: check_unclosed_brackets_def foldl_append_concat)

lemma unclosed_step_empty:
  "py_count text [fst pair] = py_count text [snd pair] \<Longrightarrow> unclosed_step text pair = []"
  by (simp add: unclosed_step_def Let_def)

lemma unclosed_step_more_open:
  "py_count text [snd pair] < py_count text [fst pair] \<Longrightarrow>
   \<exists>m. unclosed_step text pair = [m] \<and> rule_id m = u ''unclosed-brackets''
     \<and> severity m = u ''high'' \<and> rule_name m = u ''Unclosed Bracket''
     \<and> match_text m = str_nat (py_count text [fst pair] - py_count text [snd pair])
           @ u '' unclosed '' @ [39, fst pair, 39]"
  by (simp add: unclosed_step_def Let_def str_int_def nat_diff_distrib')

lemma unclosed_step_more_close:
  "py_count text [fst pair] < py_count text [snd pair] \<Longrightarrow>
   \<exists>m. unclosed_step text pair = [m] \<and> rule_id m = u ''unclosed-brackets''
     \<and> severity m = u ''high'' \<and> rule_name m = u ''Extra Closing Bracket''
     \<and> match_text m = str_nat (py_count text [snd pair] - py_count text [fst pair])
           @ u '' extra '' @ [39, snd pair, 39]"
  by (simp add: unclosed_step_def Let_def str_int_def nat_diff_distrib')

lemma unclosed_example_open:
  "check_unclosed_brackets (u ''(a, (b)'') =
     [\<lparr>rule_id = u ''unclosed-brackets'',
       rule_name = u ''Unclosed Bracket'',
       category = u ''formatting'',
       severity = u ''high'',
       match_text = u ''1 unclosed '' @ [39, 40, 39],
       suggestion = u ''Add 1 closing '' @ [39, 41, 39],
       location = u ''Document-wide'',
       match_context = u ''Found 2 '' @ [39, 40, 39] @ u '' but only 1 '' @ [39, 41, 39]\<rparr>]"
  by (simp add: check_unclosed_brackets_def bracket_pairs_def unclosed_step_def py_count_single
      u_def str_int_def str_nat_digit Let_def)

lemma unclosed_example_balanced: "check_unclosed_brackets (u ''(a, b)'') = []"
  by (simp add: check_unclosed_brackets_def bracket_pairs_def unclosed_step_def py_count_single u_def)

text \<open>
  C5. The unclosed-brackets check looks at the pairs \<open>()\<close>, \<open>[]\<close> and \<open>{}\<close> one after the
  other and independently. For a pair it emits exactly one match when the number of
  opening characters in the text differs from the number of closing ones, and none when
  they agree. The match has severity \<open>high\<close> whatever the difference; its name and text
  say which side is in excess. On \<open>(a, (b)\<close> the check gives the one match for \<open>(\<close>, on
  \<open>(a, b)\<close> it gives none.
\<close>

theorem unclosed_brackets_per_pair:
  "check_unclosed_brackets text =
     unclosed_step text (40, 41) @ unclosed_step text (91, 93) @ unclosed_step text (123, 125)
   \<and> (\<forall>pair \<in> set bracket_pairs.
         (length (unclosed_step text pair) = 1) =
           (length (filter (\<lambda>c. c = fst pair) text) \<noteq> length (filter (\<lambda>c. c = snd pair) text))
         \<and> length (unclosed_step text pair) \<le> 1
         \<and> (\<forall>m \<in> set (unclosed_step text pair).
               rule_id m = u ''unclosed-brackets'' \<and> severity m = u ''high''
               \<and> (if length (filter (\<lambda>c. c = snd pair) text) < length (filter (\<lambda>c. c = fst pair) text)
                   then rule_name m = u ''Unclosed Bracket''
                     \<and> match_text m =
                         str_nat (length (filter (\<lambda>c. c = fst pair) text)
                                  - length (filter (\<lambda>c. c = snd pair) text))
                         @ u '' unclosed '' @ [39, fst pair, 39]
                   else rule_name m = u ''Extra Closing Bracket''
                     \<and> match_text m =
                         str_nat (length (filter (\<lambda>c. c = snd pair) text)
                                  - length (filter (\<lambda>c. c = fst pair) text))
                         @ u '' extra '' @ [39, snd pair, 39])))
   \<and> check_unclosed_brackets (u ''(a, (b)'') =
       [\<lparr>rule_id = u ''unclosed-brackets'',
         rule_name = u ''Unclosed Bracket'',
         category = u ''formatting'',
         severity = u ''high'',
         match_text = u ''1 unclosed '' @ [39, 40, 39],
         suggestion = u ''Add 1 closing '' @ [39, 41, 39],
         location = u ''Document-wide'',
         match_context = u ''Found 2 '' @ [39, 40, 39] @ u '' but only 1 '' @ [39, 41, 39]\<rparr>]
   \<and> check_unclosed_brackets (u ''(a, b)'') = []"
proof -
  have all: "check_unclosed_brackets text =
     unclosed_step text (40, 41) @ unclosed_step text (91, 93) @ unclosed_step text (123, 125)"
    by (simp add: check_unclosed_brackets_concat bracket_pairs_def)
  have each: "(length (unclosed_step text pair) = 1) =
           (length (filter (\<lambda>c. c = fst pair) text) \<noteq> length (filter (\<lambda>c. c = snd pair) text))
         \<and> length (unclosed_step text pair) \<le> 1
         \<and> (\<forall>m \<in> set (unclosed_step text pair).
               rule_id m = u ''unclosed-brackets'' \<and> severity m = u ''high''
               \<and> (if length (filter (\<lambda>c. c = snd pair) text) < length (filter (\<lambda>c. c = fst pair) text)
                   then rule_name m = u ''Unclosed Bracket''
                     \<and> match_text m =
                         str_nat (length (filter (\<lambda>c. c = fst pair) text)
                                  - length (filter (\<lambda>c. c = snd pair) text))
                         @ u '' unclosed '' @ [39, fst pair, 39]
                   else rule_name m = u ''Extra Closing Bracket''
                     \<and> match_text m =
                         str_nat (length (filter (\<lambda>c. c = snd pair) text)
                                  - length (filter (\<lambda>c. c = fst pair) text))
                         @ u '' extra '' @ [39, snd pair, 39]))" for pair
  proof -
    let ?o = "py_count text [fst pair]" and ?c = "py_count text [snd pair]"
    consider (eq) "?o = ?c" | (gt) "?c < ?o" | (lt) "?o < ?c"
      by linarith
    then show ?thesis
    proof cases
      case eq
      then show ?thesis
        using unclosed_step_empty [of "text" pair] by (simp add: py_count_single)
    next
      case gt
      then show ?thesis
        using unclosed_step_more_open [of "text" pair] by (auto simp: py_count_single)
    next
      case lt
      then show ?thesis
        using unclosed_step_more_close [of "text" pair] by (auto simp: py_count_single)
    qed
  qed
  show ?thesis
    using all each unclosed_example_open unclosed_example_balanced by blast
qed

theorem unclosed_brackets_per_pair_witness:
  "(91, 93) \<in> set bracket_pairs
   \<and> length (filter (\<lambda>c. c = 91) (u ''a]]'')) \<noteq> length (filter (\<lambda>c. c = 93) (u ''a]]''))
   \<and> (\<exists>m. unclosed_step (u ''a]]'') (91, 93) = [m] \<and> severity m = u ''high''
          \<and> rule_name m = u ''Extra Closing Bracket''
          \<and> match_text m = u ''2 extra '' @ [39, 93, 39])"
proof -
  have p: "(91, 93) \<in> set bracket_pairs"
    by (simp add: bracket_pairs_def)
  have c: "length (filter (\<lambda>c. c = 91) (u ''a]]'')) = 0" "length (filter (\<lambda>c. c = 93) (u ''a]]'')) = 2"
    by (simp_all add: u_def)
  note th = unclosed_brackets_per_pair [of "u ''a]]''", THEN conjunct2, THEN conjunct1, THEN bspec, OF p]
  from th have f: "(length (unclosed_step (u ''a]]'') (91, 93)) = 1) =
           (length (filter (\<lambda>c. c = 91) (u ''a]]'')) \<noteq> length (filter (\<lambda>c. c = 93) (u ''a]]'')))"
    by simp
  from f c have "length (unclosed_step (u ''a]]'') (91, 93)) = 1"
    by simp
  then obtain m where m: "unclosed_step (u ''a]]'') (91, 93) = [m]"
    by (cases "unclosed_step (u ''a]]'') (91, 93)") auto
  with th c have "severity m = u ''high'' \<and> rule_name m = u ''Extra Closing Bracket''
          \<and> match_text m = u ''2 extra '' @ [39, 93, 39]"
    by (simp add: str_nat_digit u_def)
  with p c m show ?thesis
    by simp
qed


section \<open>Facts about the scan and the loop over its matches\<close>

lemma first_some_SomeD:
  "first_some f xs = Some y \<Longrightarrow> \<exists>x \<in> set xs. f x = Some y"
  by (induction xs) (auto split: option.splits)

lemma run_len_le: "i + run_len P text i \<le> max i (length text)"
proof -
  have "length (takeWhile P (drop i text)) \<le> length (drop i text)"
    by (rule length_takeWhile_le)
  then show ?thesis
    by (simp add: run_len_def)
qed

lemma run_len_run:
  "take (run_len P text i) (drop i text) = takeWhile P (drop i text)"
  by (simp add: run_len_def takeWhile_eq_take [symmetric])

lemma re_finditer_sound:
  "m \<in> set (re_finditer p text i) \<Longrightarrow> \<exists>j. i \<le> j \<and> j \<le> length text \<and> p text j = Some m"
proof (induction p "text" i rule: re_finditer.induct)
  case (1 p t i)
  show ?case
  proof (cases "length t < i")
    case True
    with "1.prems" show ?thesis
      by (simp add: re_finditer.simps [of p t i])
  next
    case False
    show ?thesis
    proof (cases "p t i")
      case None
      with False "1.prems" have "m \<in> set (re_finditer p t (Suc i))"
        by (simp add: re_finditer.simps [of p t i])
      with "1.IH"(1) [OF False None] show ?thesis
        by (meson Suc_leD)
    next
      case (Some m')
      let ?k = "if i < m_end m' then m_end m' else Suc i"
      from False Some "1.prems" have "m = m' \<or> m \<in> set (re_finditer p t ?k)"
        by (simp add: re_finditer.simps [of p t i])
      then show ?thesis
      proof
        assume "m = m'"
        with False Some show ?thesis
          by (intro exI [of _ i]) simp
      next
        assume "m \<in> set (re_finditer p t ?k)"
        with "1.IH"(2) [OF False Some] obtain j where "?k \<le> j" "j \<le> length t" "p t j = Some m"
          by blast
        moreover have "i \<le> ?k"
          by simp
        ultimately show ?thesis
          by (meson le_trans)
      qed
    qed
  qed
qed

lemma for_matches_pure:
  "(\<And>m. m \<in> set ms \<Longrightarrow> body m = Inr (f m)) \<Longrightarrow>
   for_matches body ms = Inr (List.map_filter f ms)"
  by (induction ms) (auto simp: List.map_filter_simps split: option.splits)

lemma map_filter_as_filter:
  "List.map_filter (\<lambda>m. if skip m then None else Some (g m)) ms = map g (filter (\<lambda>m. \<not> skip m) ms)"
  by (induction ms) (auto simp: List.map_filter_simps)


lemma run_len_bound: "0 < run_len P text i \<Longrightarrow> i + run_len P text i \<le> length text"
proof -
  assume "0 < run_len P text i"
  then have "i < length text"
    by (cases "i < length text") (simp_all add: run_len_def)
  with run_len_le [of i P "text"] show ?thesis
    by simp
qed

lemma takeWhile_eq_replicate:
  "takeWhile (\<lambda>c. c = a) xs = replicate (length (takeWhile (\<lambda>c. c = a) xs)) a"
  by (induction xs) auto

lemma run_len_eq_slice:
  "0 < run_len (\<lambda>c. c = a) text i \<Longrightarrow>
   py_slice text (int i) (int (i + run_len (\<lambda>c. c = a) text i)) = replicate (run_len (\<lambda>c. c = a) text i) a"
proof -
  assume pos: "0 < run_len (\<lambda>c. c = a) text i"
  let ?k = "run_len (\<lambda>c. c = a) text i"
  have "py_slice text (int i) (int (i + ?k)) = take ?k (drop i text)"
    using run_len_bound [OF pos] py_slice_nat [of "text" i "i + ?k"] by simp
  also have "\<dots> = takeWhile (\<lambda>c. c = a) (drop i text)"
    by (rule run_len_run)
  also have "\<dots> = replicate ?k a"
    unfolding run_len_def by (rule takeWhile_eq_replicate)
  finally show ?thesis .
qed

lemma re_double_spaces_SomeD:
  assumes "re_double_spaces text i = Some m"
  shows "m_start m = i \<and> i + 2 \<le> m_end m \<and> m_end m \<le> length text
         \<and> m_group text m = replicate (m_end m - i) 32"
proof -
  let ?k = "run_len (\<lambda>c. c = 32) text i"
  from assms have k: "2 \<le> ?k" and m: "m = \<lparr>m_start = i, m_end = i + ?k, m_groups = []\<rparr>"
    by (auto simp: re_double_spaces_def Let_def split: if_splits)
  from k have pos: "0 < ?k"
    by simp
  from run_len_bound [OF pos] run_len_eq_slice [OF pos] k m show ?thesis
    by (simp add: m_group_def)
qed

lemma re_blank_lines_SomeD:
  assumes "re_blank_lines text i = Some m"
  shows "m_start m = i \<and> i + 3 \<le> m_end m \<and> m_end m \<le> length text
         \<and> m_group text m = replicate (m_end m - i) 10"
proof -
  let ?k = "run_len (\<lambda>c. c = 10) text i"
  from assms have k: "3 \<le> ?k" and m: "m = \<lparr>m_start = i, m_end = i + ?k, m_groups = []\<rparr>"
    by (auto simp: re_blank_lines_def Let_def split: if_splits)
  from k have pos: "0 < ?k"
    by simp
  from run_len_bound [OF pos] run_len_eq_slice [OF pos] k m show ?thesis
    by (simp add: m_group_def)
qed

lemma countdown_set: "set (countdown hi lo) = {n. lo \<le> n \<and> n \<le> hi}"
  by (auto simp: countdown_def)

lemma re_repeated_words_SomeD:
  assumes "re_repeated_words db text i = Some m"
  shows "m_start m = i \<and> (\<exists>e. m_groups m = [(i, e)] \<and> i < e \<and> e < m_end m) \<and> m_end m \<le> length text"
  using assms
  by (auto simp: re_repeated_words_def Let_def backref_ignorecase_def countdown_set
      split: if_splits dest!: first_some_SomeD)

lemma re_missing_space_SomeD:
  assumes "re_missing_space text i = Some m"
  shows "m = \<lparr>m_start = i, m_end = i + 2, m_groups = [(i, i + 1), (i + 1, i + 2)]\<rparr>
         \<and> i + 2 \<le> length text \<and> is_punct (text ! i) \<and> ascii_letter (text ! Suc i)"
  using assms
  by (auto simp: re_missing_space_def split: if_splits)

lemma re_space_before_punct_SomeD:
  assumes "re_space_before_punct db text i = Some m"
  shows "m_start m = i \<and> (\<exists>p. m_groups m = [(i, Suc i), (p, Suc p)] \<and> i < p \<and> m_end m = Suc p)
         \<and> m_end m \<le> length text"
  using assms
  by (auto simp: re_space_before_punct_def Let_def countdown_set
      split: if_splits dest!: first_some_SomeD)

lemma re_double_hyphen_SomeD:
  assumes "re_double_hyphen db text i = Some m"
  shows "m_start m = i \<and> (\<exists>p. m_groups m = [(i, Suc i), (p, Suc p)] \<and> i < p \<and> m_end m = Suc p)
         \<and> m_end m \<le> length text"
  using assms
  by (auto simp: re_double_hyphen_def Let_def countdown_set
      split: if_splits dest!: first_some_SomeD)


lemma for_matches_shape:
  assumes "\<And>m. m \<in> set ms \<Longrightarrow> \<exists>r. body m = Inr r"
  shows "\<exists>rs. for_matches body ms = Inr rs
           \<and> list_all2 (\<lambda>r m. m \<in> set ms \<and> body m = Inr (Some r)) rs
                (filter (\<lambda>m. body m \<noteq> Inr None) ms)"
  using assms
proof (induction ms)
  case Nil
  then show ?case by simp
next
  case (Cons m ms)
  from Cons.prems obtain r where r: "body m = Inr r"
    by auto
  from Cons.IH Cons.prems obtain rs where rs: "for_matches body ms = Inr rs"
    and rel: "list_all2 (\<lambda>r m. m \<in> set ms \<and> body m = Inr (Some r)) rs
                (filter (\<lambda>m. body m \<noteq> Inr None) ms)"
    by auto
  from rel have rel': "list_all2 (\<lambda>r m'. m' \<in> set (m # ms) \<and> body m' = Inr (Some r)) rs
                (filter (\<lambda>m. body m \<noteq> Inr None) ms)"
    by (rule list_all2_mono) simp
  show ?case
  proof (cases r)
    case None
    with r rs rel' show ?thesis by simp
  next
    case (Some x)
    with r rs rel' show ?thesis by simp
  qed
qed

lemma list_all2_map_eq:
  "list_all2 (\<lambda>r m. f r = g m) rs ms \<Longrightarrow> map f rs = map g ms"
  by (induction rule: list_all2_induct) auto

lemma list_all2_left_all:
  "list_all2 (\<lambda>r m. P r) rs ms \<Longrightarrow> \<forall>r \<in> set rs. P r"
  by (induction rule: list_all2_induct) auto

lemma py_index_pred:
  "0 < s \<Longrightarrow> s \<le> length text \<Longrightarrow> py_index text (int s - 1) = Inr (text ! (s - 1))"
  by (auto simp: py_index_def Let_def nat_diff_distrib')

lemma m_group_n_1:
  "m_groups m = (s, e) # gs \<Longrightarrow> m_group_n text m (Suc 0) = Inr (py_slice text (int s) (int e))"
  by (simp add: m_group_n_def)

lemma m_group_n_2:
  "m_groups m = g # (s, e) # gs \<Longrightarrow> m_group_n text m 2 = Inr (py_slice text (int s) (int e))"
  by (simp add: m_group_n_def)

subsection \<open>The loop bodies on the matches of their patterns\<close>

lemma double_spaces_body_total:
  assumes "re_double_spaces text j = Some m"
  shows "\<exists>r. double_spaces_body db text m = Inr r"
proof -
  from re_double_spaces_SomeD [OF assms] have "m_start m \<le> length text"
    by simp
  then show ?thesis
    by (cases "m_start m = 0") (simp_all add: double_spaces_body_def py_index_pred)
qed

lemma double_spaces_body_SomeD:
  "double_spaces_body db text m = Inr (Some r) \<Longrightarrow> r = double_spaces_match db text m"
  by (auto simp: double_spaces_body_def err_bind_def split: if_splits sum.splits)

lemma repeated_words_body_total:
  assumes "re_repeated_words db text j = Some m"
  shows "\<exists>r. repeated_words_body db text m = Inr r"
proof -
  from re_repeated_words_SomeD [OF assms] obtain e where "m_groups m = [(j, e)]"
    by blast
  then show ?thesis
    by (simp add: repeated_words_body_def m_group_n_1 Let_def)
qed

lemma repeated_words_body_SomeD:
  "repeated_words_body db text m = Inr (Some r) \<Longrightarrow>
   rule_id r = u ''repeated-words'' \<and> match_text r = m_group text m
   \<and> location r = u ''Line '' @ str_int (get_line_number text (int (m_start m)))"
  by (auto simp: repeated_words_body_def err_bind_def Let_def split: if_splits sum.splits)

lemma missing_space_match_total:
  assumes "re_missing_space text j = Some m"
  shows "\<exists>r. missing_space_match text m = Inr (Some r)"
proof -
  from re_missing_space_SomeD [OF assms]
  have "m_groups m = [(j, j + 1), (j + 1, j + 2)]"
    by simp
  then show ?thesis
    by (simp add: missing_space_match_def m_group_n_1 m_group_n_2)
qed

lemma missing_space_body_total:
  assumes "re_missing_space text j = Some m"
  shows "\<exists>r. missing_space_body db text m = Inr r"
proof -
  from re_missing_space_SomeD [OF assms]
  have g: "m_groups m = [(j, j + 1), (j + 1, j + 2)]" and s: "m_start m = j" and j: "j \<le> length text"
    by simp_all
  from missing_space_match_total [OF assms] obtain r where r: "missing_space_match text m = Inr (Some r)"
    by blast
  show ?thesis
    using j by (simp add: missing_space_body_def Let_def m_group_n_1 [OF g] s r py_index_pred)
qed

lemma missing_space_match_SomeD:
  "missing_space_match text m = Inr (Some r) \<Longrightarrow>
   rule_id r = u ''missing-space-after-punct'' \<and> match_text r = m_group text m
   \<and> location r = u ''Line '' @ str_int (get_line_number text (int (m_start m)))"
  by (auto simp: missing_space_match_def err_bind_def split: sum.splits)

lemma missing_space_body_SomeD:
  "missing_space_body db text m = Inr (Some r) \<Longrightarrow> missing_space_match text m = Inr (Some r)"
  by (auto simp: missing_space_body_def err_bind_def Let_def split: if_splits sum.splits)

lemma space_before_punct_body_total:
  assumes "re_space_before_punct db text j = Some m"
  shows "\<exists>r. space_before_punct_body text m = Inr r"
proof -
  from re_space_before_punct_SomeD [OF assms] obtain p where "m_groups m = [(j, Suc j), (p, Suc p)]"
    by blast
  then show ?thesis
    by (simp add: space_before_punct_body_def m_group_n_1 m_group_n_2)
qed

lemma space_before_punct_body_SomeD:
  "space_before_punct_body text m = Inr (Some r) \<Longrightarrow>
   rule_id r = u ''space-before-punct'' \<and> match_text r = m_group text m
   \<and> location r = u ''Line '' @ str_int (get_line_number text (int (m_start m)))"
  by (auto simp: space_before_punct_body_def err_bind_def split: sum.splits)

lemma blank_lines_body_SomeD:
  "blank_lines_body text m = Inr (Some r) \<Longrightarrow>
   rule_id r = u ''multiple-blank-lines''
   \<and> match_text r = str_int (int (length (m_group text m)) - 1) @ u '' consecutive blank lines''
   \<and> location r = u ''Line '' @ str_int (get_line_number text (int (m_start m)))"
  by (auto simp: blank_lines_body_def Let_def)

lemma double_hyphen_body_total:
  assumes "re_double_hyphen db text j = Some m"
  shows "\<exists>r. double_hyphen_body text m = Inr r"
proof -
  from re_double_hyphen_SomeD [OF assms] obtain p where "m_groups m = [(j, Suc j), (p, Suc p)]"
    by blast
  then show ?thesis
    by (simp add: double_hyphen_body_def m_group_n_1 m_group_n_2)
qed

lemma double_hyphen_body_SomeD:
  "double_hyphen_body text m = Inr (Some r) \<Longrightarrow>
   rule_id r = u ''double-hyphen-emdash'' \<and> match_text r = m_group text m
   \<and> location r = u ''Line '' @ str_int (get_line_number text (int (m_start m)))"
  by (auto simp: double_hyphen_body_def err_bind_def split: sum.splits)


subsection \<open>The point-finding checks\<close>

lemma scan_loop_shape:
  assumes "\<And>j m. p text j = Some m \<Longrightarrow> \<exists>r. body m = Inr r"
  shows "\<exists>rs. for_matches body (re_finditer p text 0) = Inr rs
           \<and> list_all2 (\<lambda>r m. (\<exists>j. p text j = Some m) \<and> body m = Inr (Some r)) rs
                (filter (\<lambda>m. body m \<noteq> Inr None) (re_finditer p text 0))"
proof -
  let ?ms = "re_finditer p text 0"
  have "\<And>m. m \<in> set ?ms \<Longrightarrow> \<exists>r. body m = Inr r"
    using assms re_finditer_sound by blast
  from for_matches_shape [of ?ms body, OF this] obtain rs where rs: "for_matches body ?ms = Inr rs"
    and rel: "list_all2 (\<lambda>r m. m \<in> set ?ms \<and> body m = Inr (Some r)) rs
                (filter (\<lambda>m. body m \<noteq> Inr None) ?ms)"
    by blast
  from rel have "list_all2 (\<lambda>r m. (\<exists>j. p text j = Some m) \<and> body m = Inr (Some r)) rs
                (filter (\<lambda>m. body m \<noteq> Inr None) ?ms)"
    by (rule list_all2_mono) (use re_finditer_sound in blast)
  with rs show ?thesis
    by blast
qed

lemma double_spaces_shape:
  "\<exists>rs. check_double_spaces db text = Inr rs
     \<and> list_all2 (\<lambda>r m. (\<exists>j. re_double_spaces text j = Some m) \<and> double_spaces_body db text m = Inr (Some r)) rs
          (filter (\<lambda>m. double_spaces_body db text m \<noteq> Inr None) (re_finditer re_double_spaces text 0))"
  unfolding check_double_spaces_def
  by (rule scan_loop_shape) (rule double_spaces_body_total)

lemma repeated_words_shape:
  "\<exists>rs. check_repeated_words db text = Inr rs
     \<and> list_all2 (\<lambda>r m. (\<exists>j. re_repeated_words db text j = Some m) \<and> repeated_words_body db text m = Inr (Some r)) rs
          (filter (\<lambda>m. repeated_words_body db text m \<noteq> Inr None) (re_finditer (re_repeated_words db) text 0))"
  unfolding check_repeated_words_def
  by (rule scan_loop_shape) (rule repeated_words_body_total)

lemma missing_space_shape:
  "\<exists>rs. check_missing_space_after_punct db text = Inr rs
     \<and> list_all2 (\<lambda>r m. (\<exists>j. re_missing_space text j = Some m) \<and> missing_space_body db text m = Inr (Some r)) rs
          (filter (\<lambda>m. missing_space_body db text m \<noteq> Inr None) (re_finditer re_missing_space text 0))"
  unfolding check_missing_space_after_punct_def
  by (rule scan_loop_shape) (rule missing_space_body_total)

lemma space_before_punct_shape:
  "\<exists>rs. check_space_before_punct db text = Inr rs
     \<and> list_all2 (\<lambda>r m. (\<exists>j. re_space_before_punct db text j = Some m) \<and> space_before_punct_body text m = Inr (Some r)) rs
          (filter (\<lambda>m. space_before_punct_body text m \<noteq> Inr None) (re_finditer (re_space_before_punct db) text 0))"
  unfolding check_space_before_punct_def
  by (rule scan_loop_shape) (rule space_before_punct_body_total)

lemma double_hyphen_shape:
  "\<exists>rs. check_double_hyphen_emdash db text = Inr rs
     \<and> list_all2 (\<lambda>r m. (\<exists>j. re_double_hyphen db text j = Some m) \<and> double_hyphen_body text m = Inr (Some r)) rs
          (filter (\<lambda>m. double_hyphen_body text m \<noteq> Inr None) (re_finditer (re_double_hyphen db) text 0))"
  unfolding check_double_hyphen_emdash_def
  by (rule scan_loop_shape) (rule double_hyphen_body_total)

lemma blank_lines_shape:
  "\<exists>rs. check_multiple_blank_lines text = Inr rs
     \<and> list_all2 (\<lambda>r m. (\<exists>j. re_blank_lines text j = Some m) \<and> blank_lines_body text m = Inr (Some r)) rs
          (filter (\<lambda>m. blank_lines_body text m \<noteq> Inr None) (re_finditer re_blank_lines text 0))"
  unfolding check_multiple_blank_lines_def
  by (rule scan_loop_shape) (simp add: blank_lines_body_def Let_def)


subsection \<open>Every check returns, with matches of its own rule id\<close>

lemma shape_ids:
  assumes "\<exists>rs. chk = Inr rs \<and> list_all2 (\<lambda>r m. V m \<and> body m = Inr (Some r)) rs ms"
    and "\<And>m r. body m = Inr (Some r) \<Longrightarrow> rule_id r = rid"
  shows "\<exists>rs. chk = Inr rs \<and> (\<forall>r \<in> set rs. rule_id r = rid)"
proof -
  from assms(1) obtain rs where rs: "chk = Inr rs"
    and rel: "list_all2 (\<lambda>r m. V m \<and> body m = Inr (Some r)) rs ms"
    by blast
  from rel have "list_all2 (\<lambda>r m. rule_id r = rid) rs ms"
    by (rule list_all2_mono) (use assms(2) in blast)
  then have "\<forall>r \<in> set rs. rule_id r = rid"
    by (rule list_all2_left_all)
  with rs show ?thesis
    by blast
qed

lemma double_spaces_ids:
  "\<exists>rs. check_double_spaces db text = Inr rs \<and> (\<forall>r \<in> set rs. rule_id r = u ''double-spaces'')"
  by (rule shape_ids [OF double_spaces_shape])
    (auto dest!: double_spaces_body_SomeD simp: double_spaces_match_def)

lemma repeated_words_ids:
  "\<exists>rs. check_repeated_words db text = Inr rs \<and> (\<forall>r \<in> set rs. rule_id r = u ''repeated-words'')"
  by (rule shape_ids [OF repeated_words_shape]) (auto dest!: repeated_words_body_SomeD)

lemma missing_space_ids:
  "\<exists>rs. check_missing_space_after_punct db text = Inr rs
     \<and> (\<forall>r \<in> set rs. rule_id r = u ''missing-space-after-punct'')"
  by (rule shape_ids [OF missing_space_shape])
    (auto dest!: missing_space_body_SomeD missing_space_match_SomeD)

lemma space_before_punct_ids:
  "\<exists>rs. check_space_before_punct db text = Inr rs
     \<and> (\<forall>r \<in> set rs. rule_id r = u ''space-before-punct'')"
  by (rule shape_ids [OF space_before_punct_shape]) (auto dest!: space_before_punct_body_SomeD)

lemma blank_lines_ids:
  "\<exists>rs. check_multiple_blank_lines text = Inr rs
     \<and> (\<forall>r \<in> set rs. rule_id r = u ''multiple-blank-lines'')"
  by (rule shape_ids [OF blank_lines_shape]) (auto dest!: blank_lines_body_SomeD)

lemma double_hyphen_ids:
  "\<exists>rs. check_double_hyphen_emdash db text = Inr rs
     \<and> (\<forall>r \<in> set rs. rule_id r = u ''double-hyphen-emdash'')"
  by (rule shape_ids [OF double_hyphen_shape]) (auto dest!: double_hyphen_body_SomeD)

lemma unclosed_step_ids:
  "r \<in> set (unclosed_step text pair) \<Longrightarrow> rule_id r = u ''unclosed-brackets''"
  by (auto simp: unclosed_step_def Let_def split: if_splits)

lemma unclosed_brackets_ids:
  "\<forall>r \<in> set (check_unclosed_brackets text). rule_id r = u ''unclosed-brackets''"
  by (auto simp: check_unclosed_brackets_concat dest: unclosed_step_ids)

lemma trailing_whitespace_ids:
  "\<forall>r \<in> set (check_trailing_whitespace db text). rule_id r = u ''trailing-whitespace''"
  by (simp add: check_trailing_whitespace_def Let_def)

lemma inconsistent_quotes_ids:
  "\<forall>r \<in> set (check_inconsistent_quotes text). rule_id r = u ''inconsistent-quotes''"
  by (auto simp: check_inconsistent_quotes_def Let_def)

lemma tab_characters_ids:
  "\<forall>r \<in> set (check_tab_characters text). rule_id r = u ''tab-characters''"
  by (simp add: check_tab_characters_def Let_def)

lemma hidden_characters_ids:
  "\<forall>r \<in> set (check_hidden_characters text). rule_id r = u ''hidden-characters''"
  by (simp add: check_hidden_characters_def Let_def)

lemma straight_vs_curly_ids:
  "\<forall>r \<in> set (check_straight_vs_curly_quotes text). rule_id r = u ''straight-vs-curly-quotes''"
  by (simp add: check_straight_vs_curly_quotes_def Let_def)

lemma checks_results:
  "\<forall>chk \<in> set (checks db text). \<exists>rs. snd chk = Inr rs \<and> (\<forall>r \<in> set rs. rule_id r = fst chk)"
  unfolding checks_def
  using double_spaces_ids [of db "text"] repeated_words_ids [of db "text"]
    missing_space_ids [of db "text"] space_before_punct_ids [of db "text"]
    blank_lines_ids [of "text"] double_hyphen_ids [of db "text"]
    unclosed_brackets_ids [of "text"] trailing_whitespace_ids [of db "text"]
    inconsistent_quotes_ids [of "text"] tab_characters_ids [of "text"]
    hidden_characters_ids [of "text"] straight_vs_curly_ids [of "text"]
  by simp

lemma checks_ids: "map fst (checks db text) = catalogue"
  by (simp add: checks_def catalogue_def)

subsection \<open>The dispatcher as a concatenation\<close>

lemma foldl_extend_if_enabled:
  assumes "\<forall>chk \<in> set cs. \<exists>rs. snd chk = Inr rs"
  shows "foldl (extend_if_enabled self) (Inr acc) cs =
           Inr (acc @ concat (map (\<lambda>chk. if fst chk \<in> disabled_rules self then [] else projr (snd chk)) cs))"
  using assms
proof (induction cs arbitrary: acc)
  case Nil
  then show ?case by simp
next
  case (Cons chk cs)
  from Cons.prems obtain rs where rs: "snd chk = Inr rs"
    by auto
  have step: "extend_if_enabled self (Inr acc) chk =
                Inr (acc @ (if fst chk \<in> disabled_rules self then [] else rs))"
    by (simp add: extend_if_enabled_def rs)
  from Cons.prems have "\<forall>chk \<in> set cs. \<exists>rs. snd chk = Inr rs"
    by simp
  from Cons.IH [OF this] show ?case
    by (simp add: step rs)
qed

lemma check_all_concat:
  "check_all db self text =
     Inr (concat (map (\<lambda>chk. if fst chk \<in> disabled_rules self then [] else projr (snd chk))
                    (checks db text)))"
proof -
  have "\<forall>chk \<in> set (checks db text). \<exists>rs. snd chk = Inr rs"
    using checks_results [of db "text"] by blast
  from foldl_extend_if_enabled [OF this, of self "[]"] show ?thesis
    by (simp add: check_all_def)
qed

lemma filter_blocks:
  assumes "\<forall>chk \<in> set cs. \<forall>r \<in> set (projr (snd chk)). rule_id r = fst chk"
  shows "filter (\<lambda>r. rule_id r \<notin> S) (concat (map (\<lambda>chk. projr (snd chk)) cs)) =
           concat (map (\<lambda>chk. if fst chk \<in> S then [] else projr (snd chk)) cs)"
  using assms
proof (induction cs)
  case Nil
  then show ?case by simp
next
  case (Cons chk cs)
  from Cons.prems have own: "\<forall>r \<in> set (projr (snd chk)). rule_id r = fst chk"
    by simp
  have "filter (\<lambda>r. rule_id r \<notin> S) (projr (snd chk)) =
          (if fst chk \<in> S then [] else projr (snd chk))"
  proof (cases "fst chk \<in> S")
    case True
    with own show ?thesis
      by (simp add: filter_empty_conv)
  next
    case False
    with own show ?thesis
      by (simp add: filter_id_conv)
  qed
  with Cons show ?case
    by simp
qed

lemma checks_own_ids:
  "\<forall>chk \<in> set (checks db text). \<forall>r \<in> set (projr (snd chk)). rule_id r = fst chk"
  using checks_results [of db "text"] by fastforce


section \<open>Properties of the dispatcher\<close>

text \<open>
  C3. For every text, the empty one included, every set of disabled rules and whatever
  the character tables are, \<open>check_all\<close> returns a list of matches: no index and no
  group access of a check raises. Every function of the model is total, the scan by its
  measure, so the call terminates; the text is a value and is not changed.
\<close>

theorem check_all_returns:
  "\<exists>matches. check_all db self text = Inr matches"
  by (simp add: check_all_concat)

text \<open>
  C1. Running with the set \<open>S\<close> of rule ids disabled gives the output of the run with
  nothing disabled without the matches whose rule id is in \<open>S\<close>, in the same order and
  with nothing added. Adding to \<open>S\<close> an id that is not in the catalogue changes nothing.
\<close>

theorem check_all_disabled:
  "\<exists>all_matches.
     check_all db \<lparr>disabled_rules = {}\<rparr> text = Inr all_matches
     \<and> check_all db \<lparr>disabled_rules = S\<rparr> text = Inr (filter (\<lambda>m. rule_id m \<notin> S) all_matches)
     \<and> (rid \<notin> set catalogue \<longrightarrow>
          check_all db \<lparr>disabled_rules = insert rid S\<rparr> text = check_all db \<lparr>disabled_rules = S\<rparr> text)"
proof -
  let ?all = "concat (map (\<lambda>chk. projr (snd chk)) (checks db text))"
  have a: "check_all db \<lparr>disabled_rules = {}\<rparr> text = Inr ?all"
    by (simp add: check_all_concat)
  have b: "check_all db \<lparr>disabled_rules = S\<rparr> text = Inr (filter (\<lambda>m. rule_id m \<notin> S) ?all)"
    by (simp add: check_all_concat filter_blocks [OF checks_own_ids])
  have c: "check_all db \<lparr>disabled_rules = insert rid S\<rparr> text = check_all db \<lparr>disabled_rules = S\<rparr> text"
    if "rid \<notin> set catalogue"
  proof -
    have "fst chk \<noteq> rid" if "chk \<in> set (checks db text)" for chk
    proof -
      from that have "fst chk \<in> set (map fst (checks db text))"
        by simp
      with \<open>rid \<notin> set catalogue\<close> show ?thesis
        by (auto simp: checks_ids)
    qed
    then have "map (\<lambda>chk. if fst chk \<in> disabled_rules \<lparr>disabled_rules = insert rid S\<rparr>
                          then [] else projr (snd chk)) (checks db text) =
               map (\<lambda>chk. if fst chk \<in> disabled_rules \<lparr>disabled_rules = S\<rparr>
                          then [] else projr (snd chk)) (checks db text)"
      by (intro map_cong) auto
    then show ?thesis
      by (simp only: check_all_concat)
  qed
  from a b c show ?thesis
    by blast
qed

theorem check_all_disabled_witness:
  "u ''no-such-rule'' \<notin> set catalogue
   \<and> check_all ascii_db \<lparr>disabled_rules = insert (u ''no-such-rule'') {u ''double-spaces''}\<rparr> (u ''a  b'') =
       check_all ascii_db \<lparr>disabled_rules = {u ''double-spaces''}\<rparr> (u ''a  b'')"
proof -
  have h: "u ''no-such-rule'' \<notin> set catalogue"
    by (simp add: catalogue_def u_def)
  from check_all_disabled [of ascii_db "u ''a  b''" "{u ''double-spaces''}" "u ''no-such-rule''"] h
  show ?thesis
    by blast
qed




subsection \<open>The empty document\<close>

lemma re_finditer_empty: "p [] 0 = None \<Longrightarrow> re_finditer p [] 0 = []"
  by (simp add: re_finditer.simps [of p "[]" 0] re_finditer.simps [of p "[]" "Suc 0"])

lemma triple_quoted_nonempty: "triple_quoted \<noteq> []"
  by (simp add: triple_quoted_def u_def)

lemma py_count_empty: "sub \<noteq> [] \<Longrightarrow> py_count [] sub = 0"
  by (simp add: py_count_def)

lemma check_double_spaces_empty: "check_double_spaces db [] = Inr []"
  by (simp add: check_double_spaces_def re_finditer_empty re_double_spaces_def run_len_def)

lemma check_repeated_words_empty: "check_repeated_words db [] = Inr []"
  by (simp add: check_repeated_words_def re_finditer_empty re_repeated_words_def at_boundary_def)

lemma check_missing_space_empty: "check_missing_space_after_punct db [] = Inr []"
  by (simp add: check_missing_space_after_punct_def re_finditer_empty re_missing_space_def)

lemma check_space_before_punct_empty: "check_space_before_punct db [] = Inr []"
  by (simp add: check_space_before_punct_def re_finditer_empty re_space_before_punct_def)

lemma check_unclosed_brackets_empty: "check_unclosed_brackets [] = []"
  by (simp add: check_unclosed_brackets_def bracket_pairs_def unclosed_step_def py_count_empty)

lemma check_trailing_whitespace_empty: "check_trailing_whitespace db [] = []"
  by (simp add: check_trailing_whitespace_def rstrip_def)

lemma check_multiple_blank_lines_empty: "check_multiple_blank_lines [] = Inr []"
  by (simp add: check_multiple_blank_lines_def re_finditer_empty re_blank_lines_def run_len_def)

lemma check_inconsistent_quotes_empty: "check_inconsistent_quotes [] = []"
  by (simp add: check_inconsistent_quotes_def py_count_empty triple_quoted_nonempty)

lemma check_tab_characters_empty: "check_tab_characters [] = []"
  by (simp add: check_tab_characters_def py_count_empty)

lemma check_double_hyphen_empty: "check_double_hyphen_emdash db [] = Inr []"
  by (simp add: check_double_hyphen_emdash_def re_finditer_empty re_double_hyphen_def)

lemma check_hidden_characters_empty: "check_hidden_characters [] = []"
  by (simp add: check_hidden_characters_def hidden_chars_def py_count_empty)

lemma check_straight_vs_curly_empty: "check_straight_vs_curly_quotes [] = []"
  by (simp add: check_straight_vs_curly_quotes_def py_count_empty triple_quoted_nonempty)

lemmas checks_empty =
  check_double_spaces_empty check_repeated_words_empty check_missing_space_empty
  check_space_before_punct_empty check_unclosed_brackets_empty check_trailing_whitespace_empty
  check_multiple_blank_lines_empty check_inconsistent_quotes_empty check_tab_characters_empty
  check_double_hyphen_empty check_hidden_characters_empty check_straight_vs_curly_empty

text \<open>
  C9. On the empty document every one of the twelve checks gives no match, the
  aggregate ones included (the single empty line has no trailing white space, every
  count is zero), and so \<open>check_all\<close> returns the empty list for any set of disabled rules.
\<close>

theorem check_all_empty:
  "check_all db self [] = Inr []
   \<and> check_double_spaces db [] = Inr []
   \<and> check_repeated_words db [] = Inr []
   \<and> check_missing_space_after_punct db [] = Inr []
   \<and> check_space_before_punct db [] = Inr []
   \<and> check_unclosed_brackets [] = []
   \<and> check_trailing_whitespace db [] = []
   \<and> check_multiple_blank_lines [] = Inr []
   \<and> check_inconsistent_quotes [] = []
   \<and> check_tab_characters [] = []
   \<and> check_double_hyphen_emdash db [] = Inr []
   \<and> check_hidden_characters [] = []
   \<and> check_straight_vs_curly_quotes [] = []"
  by (simp add: check_all_concat checks_def checks_empty)

subsection \<open>The order of the output\<close>

lemma catalogue_distinct: "distinct catalogue"
  by (simp add: catalogue_def u_def)

lemma replicate_blocks:
  "concat (map (\<lambda>x. replicate (f x) (g x)) xs) = concat (map2 replicate (map f xs) (map g xs))"
  by (induction xs) auto

lemma map_const_replicate: "\<forall>r \<in> set rs. f r = c \<Longrightarrow> map f rs = replicate (length rs) c"
  by (induction rs) auto

lemma ids_of_blocks:
  assumes "\<forall>chk \<in> set cs. \<forall>r \<in> set (blk chk). rule_id r = fst chk"
  shows "map rule_id (concat (map blk cs)) =
           concat (map2 replicate (map (\<lambda>chk. length (blk chk)) cs) (map fst cs))"
proof -
  have "map rule_id (concat (map blk cs)) = concat (map (\<lambda>chk. map rule_id (blk chk)) cs)"
    by (simp add: map_concat comp_def)
  also have "\<dots> = concat (map (\<lambda>chk. replicate (length (blk chk)) (fst chk)) cs)"
    using assms by (intro arg_cong [where f = concat] map_cong refl map_const_replicate) auto
  also have "\<dots> = concat (map2 replicate (map (\<lambda>chk. length (blk chk)) cs) (map fst cs))"
    by (rule replicate_blocks)
  finally show ?thesis .
qed

lemma filter_own_block:
  assumes "\<forall>chk \<in> set cs. \<forall>r \<in> set (blk chk). rule_id r = fst chk"
    and "distinct (map fst cs)" and "chk \<in> set cs"
  shows "filter (\<lambda>r. rule_id r = fst chk) (concat (map blk cs)) = blk chk"
  using assms
proof (induction cs)
  case Nil
  then show ?case by simp
next
  case (Cons c cs)
  from Cons.prems(1) have own: "\<forall>r \<in> set (blk c). rule_id r = fst c"
    and rest: "\<forall>chk \<in> set cs. \<forall>r \<in> set (blk chk). rule_id r = fst chk"
    by simp_all
  from Cons.prems(2) have fresh: "fst c \<notin> fst ` set cs" and dist: "distinct (map fst cs)"
    by simp_all
  show ?case
  proof (cases "chk = c")
    case True
    have "filter (\<lambda>r. rule_id r = fst c) (blk c) = blk c"
      using own by (simp add: filter_id_conv)
    moreover have "filter (\<lambda>r. rule_id r = fst c) (concat (map blk cs)) = []"
    proof -
      have "rule_id r \<noteq> fst c" if "r \<in> set (concat (map blk cs))" for r
      proof -
        from that obtain c' where c': "c' \<in> set cs" and r: "r \<in> set (blk c')"
          by auto
        from rest c' r have "rule_id r = fst c'"
          by blast
        moreover from fresh c' have "fst c' \<noteq> fst c"
          by (metis imageI)
        ultimately show ?thesis
          by simp
      qed
      then show ?thesis
        by (simp only: filter_empty_conv) blast
    qed
    ultimately show ?thesis
      using True by simp
  next
    case False
    with Cons.prems(3) have mem: "chk \<in> set cs"
      by simp
    with fresh have "fst chk \<noteq> fst c"
      by (metis imageI)
    with own have "filter (\<lambda>r. rule_id r = fst chk) (blk c) = []"
      by (simp add: filter_empty_conv)
    with Cons.IH [OF rest dist mem] show ?thesis
      by simp
  qed
qed

text \<open>
  C2. The rule ids of the output of \<open>check_all\<close> are a block of the first id of the
  catalogue, then a block of the second, and so on in the declared order (a block is
  empty when the rule is disabled or finds nothing), wherever in the text the matches
  lie. The matches of one enabled rule are, in the output, the list its check returned,
  in the check's own order.
\<close>

theorem check_all_order:
  "map fst (checks db text) = catalogue
   \<and> (\<exists>out ns.
         check_all db self text = Inr out
         \<and> length ns = length catalogue
         \<and> map rule_id out = concat (map2 replicate ns catalogue)
         \<and> (\<forall>chk \<in> set (checks db text). fst chk \<notin> disabled_rules self \<longrightarrow>
               snd chk = Inr (filter (\<lambda>m. rule_id m = fst chk) out)))"
proof -
  let ?cs = "checks db text"
  let ?blk = "\<lambda>chk. if fst chk \<in> disabled_rules self then [] else projr (snd chk)"
  let ?out = "concat (map ?blk ?cs)"
  let ?ns = "map (\<lambda>chk. length (?blk chk)) ?cs"
  have own: "\<forall>chk \<in> set ?cs. \<forall>r \<in> set (?blk chk). rule_id r = fst chk"
    using checks_own_ids [of db "text"] by simp
  have dist: "distinct (map fst ?cs)"
    by (simp only: checks_ids catalogue_distinct)
  have a: "check_all db self text = Inr ?out"
    by (rule check_all_concat)
  have b: "length ?ns = length catalogue"
    by (simp add: checks_ids [of db "text", symmetric])
  have c: "map rule_id ?out = concat (map2 replicate ?ns catalogue)"
    using ids_of_blocks [of ?cs ?blk, OF own] by (simp only: checks_ids)
  have d: "snd chk = Inr (filter (\<lambda>m. rule_id m = fst chk) ?out)"
    if "chk \<in> set ?cs" and "fst chk \<notin> disabled_rules self" for chk
  proof -
    from checks_results [of db "text"] that(1) obtain rs where rs: "snd chk = Inr rs"
      by blast
    from filter_own_block [of ?cs ?blk, OF own dist that(1)] that(2) rs show ?thesis
      by simp
  qed
  from a b c d checks_ids [of db "text"] show ?thesis
    by blast
qed


subsection \<open>Evaluating the checks on a given text\<close>

lemmas eval_simps =
  u_def re_finditer.simps run_len_def countdown_def Let_def
  is_word_def is_punct_def ascii_letter_def ascii_upper_def ascii_lower_def ascii_digit_def
  ascii_tolower_def unicode_space_def ascii_db_def at_boundary_def backref_ignorecase_def
  m_group_def m_group_n_def py_slice_def slice_bound_def py_index_def
  get_line_number_def get_context_def py_count_def str_int_def str_nat_digit

lemmas check_defs =
  check_double_spaces_def double_spaces_body_def double_spaces_match_def re_double_spaces_def
  py_repr_def repr_char_def
  check_repeated_words_def repeated_words_body_def re_repeated_words_def
  check_missing_space_after_punct_def missing_space_body_def missing_space_match_def
  re_missing_space_def url_markers_def
  check_space_before_punct_def space_before_punct_body_def re_space_before_punct_def
  check_unclosed_brackets_def bracket_pairs_def unclosed_step_def
  check_trailing_whitespace_def rstrip_def
  check_multiple_blank_lines_def blank_lines_body_def re_blank_lines_def
  check_inconsistent_quotes_def triple_quoted_def
  check_tab_characters_def
  check_double_hyphen_emdash_def double_hyphen_body_def re_double_hyphen_def
  check_hidden_characters_def hidden_chars_def
  check_straight_vs_curly_quotes_def

lemma order_example:
  "map rule_id (projr (check_all ascii_db \<lparr>disabled_rules = {}\<rparr> (u ''a ,b  c''))) =
     [u ''double-spaces'', u ''missing-space-after-punct'', u ''space-before-punct'']"
  by (simp add: check_all_def checks_def extend_if_enabled_def check_defs eval_simps)


theorem check_all_order_witness:
  "(u ''double-spaces'', check_double_spaces ascii_db (u ''a ,b  c'')) \<in> set (checks ascii_db (u ''a ,b  c''))
   \<and> u ''double-spaces'' \<notin> disabled_rules \<lparr>disabled_rules = {}\<rparr>
   \<and> (\<exists>out. check_all ascii_db \<lparr>disabled_rules = {}\<rparr> (u ''a ,b  c'') = Inr out
          \<and> map rule_id out =
              [u ''double-spaces'', u ''missing-space-after-punct'', u ''space-before-punct'']
          \<and> check_double_spaces ascii_db (u ''a ,b  c'') =
              Inr (filter (\<lambda>m. rule_id m = u ''double-spaces'') out))"
proof -
  let ?T = "u ''a ,b  c''"
  let ?self = "\<lparr>disabled_rules = {}\<rparr> :: rule_checker"
  have mem: "(u ''double-spaces'', check_double_spaces ascii_db ?T) \<in> set (checks ascii_db ?T)"
    by (simp add: checks_def)
  have en: "u ''double-spaces'' \<notin> disabled_rules ?self"
    by simp
  from check_all_order [of ascii_db ?T ?self] obtain out where out: "check_all ascii_db ?self ?T = Inr out"
    and each: "\<forall>chk \<in> set (checks ascii_db ?T). fst chk \<notin> disabled_rules ?self \<longrightarrow>
               snd chk = Inr (filter (\<lambda>m. rule_id m = fst chk) out)"
    by blast
  from bspec [OF each mem] have "fst (u ''double-spaces'', check_double_spaces ascii_db ?T) \<notin> disabled_rules ?self \<longrightarrow>
      snd (u ''double-spaces'', check_double_spaces ascii_db ?T) =
      Inr (filter (\<lambda>m. rule_id m = fst (u ''double-spaces'', check_double_spaces ascii_db ?T)) out)" .
  with en have own: "check_double_spaces ascii_db ?T = Inr (filter (\<lambda>m. rule_id m = u ''double-spaces'') out)"
    by simp
  from out order_example have ids: "map rule_id out =
      [u ''double-spaces'', u ''missing-space-after-punct'', u ''space-before-punct'']"
    by (simp only: sum.sel)
  have "\<exists>out'. check_all ascii_db ?self ?T = Inr out'
          \<and> map rule_id out' =
              [u ''double-spaces'', u ''missing-space-after-punct'', u ''space-before-punct'']
          \<and> check_double_spaces ascii_db ?T =
              Inr (filter (\<lambda>m. rule_id m = u ''double-spaces'') out')"
    using out ids own by (intro exI [of _ out] conjI)
  with mem en show ?thesis
    by (intro conjI)
qed


section \<open>The fields of the point findings\<close>

lemma shape_map:
  assumes "\<exists>rs. chk = Inr rs \<and> list_all2 (\<lambda>r m. V m \<and> body m = Inr (Some r)) rs (filter P ms)"
    and "\<And>m r. V m \<Longrightarrow> body m = Inr (Some r) \<Longrightarrow> f r = g m"
  shows "\<exists>rs Q. chk = Inr rs \<and> map f rs = map g (filter Q ms)"
proof -
  from assms(1) obtain rs where rs: "chk = Inr rs"
    and rel: "list_all2 (\<lambda>r m. V m \<and> body m = Inr (Some r)) rs (filter P ms)"
    by blast
  from rel have "list_all2 (\<lambda>r m. f r = g m) rs (filter P ms)"
    by (rule list_all2_mono) (use assms(2) in blast)
  then have "map f rs = map g (filter P ms)"
    by (rule list_all2_map_eq)
  with rs show ?thesis
    by blast
qed

lemma scan_bounds:
  assumes "\<And>j m. p text j = Some m \<Longrightarrow> m_start m < m_end m \<and> m_end m \<le> length text"
  shows "list_all (\<lambda>m. m_start m < m_end m \<and> m_end m \<le> length text) (re_finditer p text 0)"
  unfolding list_all_iff using assms re_finditer_sound by blast

lemma double_spaces_bounds:
  "list_all (\<lambda>m. m_start m < m_end m \<and> m_end m \<le> length text) (re_finditer re_double_spaces text 0)"
  by (rule scan_bounds) (use re_double_spaces_SomeD in force)

lemma repeated_words_bounds:
  "list_all (\<lambda>m. m_start m < m_end m \<and> m_end m \<le> length text) (re_finditer (re_repeated_words db) text 0)"
  by (rule scan_bounds) (use re_repeated_words_SomeD in force)

lemma missing_space_bounds:
  "list_all (\<lambda>m. m_start m < m_end m \<and> m_end m \<le> length text) (re_finditer re_missing_space text 0)"
  by (rule scan_bounds) (use re_missing_space_SomeD in force)

lemma space_before_punct_bounds:
  "list_all (\<lambda>m. m_start m < m_end m \<and> m_end m \<le> length text) (re_finditer (re_space_before_punct db) text 0)"
  by (rule scan_bounds) (use re_space_before_punct_SomeD in force)

lemma blank_lines_bounds:
  "list_all (\<lambda>m. m_start m < m_end m \<and> m_end m \<le> length text) (re_finditer re_blank_lines text 0)"
  by (rule scan_bounds) (use re_blank_lines_SomeD in force)

lemma double_hyphen_bounds:
  "list_all (\<lambda>m. m_start m < m_end m \<and> m_end m \<le> length text) (re_finditer (re_double_hyphen db) text 0)"
  by (rule scan_bounds) (use re_double_hyphen_SomeD in force)

lemma concat_replicate_single: "concat (replicate k [x]) = replicate k x"
  by (induction k) auto

lemma py_repr_spaces: "py_repr db (replicate k 32) = [39] @ replicate k 32 @ [39]"
proof -
  have "repr_char db 39 32 = [32]"
    by (simp add: repr_char_def)
  then show ?thesis
    by (simp add: py_repr_def concat_replicate_single)
qed

lemma double_spaces_text:
  assumes "re_double_spaces text j = Some m" and "double_spaces_body db text m = Inr (Some r)"
  shows "match_text r = [39] @ py_slice text (int (m_start m)) (int (m_end m)) @ [39]"
proof -
  from re_double_spaces_SomeD [OF assms(1)]
  have g: "m_group text m = replicate (m_end m - j) 32"
    by simp
  from double_spaces_body_SomeD [OF assms(2)] have "match_text r = py_repr db (m_group text m)"
    by (simp add: double_spaces_match_def)
  also have "\<dots> = [39] @ m_group text m @ [39]"
    by (simp only: g py_repr_spaces)
  finally show ?thesis
    by (simp only: m_group_def)
qed

lemma blank_lines_text:
  assumes "re_blank_lines text j = Some m" and "blank_lines_body text m = Inr (Some r)"
  shows "match_text r = str_nat (m_end m - m_start m - 1) @ u '' consecutive blank lines''"
proof -
  from re_blank_lines_SomeD [OF assms(1)]
  have g: "m_group text m = replicate (m_end m - j) 10" and s: "m_start m = j" and b: "j + 3 \<le> m_end m"
    by simp_all
  from b have "int (length (replicate (m_end m - j) (10::nat))) - 1 = int (m_end m - j - 1)"
    by simp
  then have "str_int (int (length (m_group text m)) - 1) = str_nat (m_end m - m_start m - 1)"
    by (simp only: g s str_int_nat)
  with blank_lines_body_SomeD [OF assms(2)] show ?thesis
    by simp
qed


lemma get_line_number_count:
  "get_line_number text (int s) = 1 + int (length (filter (\<lambda>c. c = 10) (take s text)))"
  by (simp add: get_line_number_def py_count_single py_slice_def slice_bound_def min_def)

lemma double_spaces_span:
  "list_all (\<lambda>m. m_start m + 2 \<le> m_end m \<and> m_end m \<le> length text
       \<and> py_slice text (int (m_start m)) (int (m_end m)) = replicate (m_end m - m_start m) 32)
     (re_finditer re_double_spaces text 0)"
  unfolding list_all_iff
proof
  fix m
  assume "m \<in> set (re_finditer re_double_spaces text 0)"
  then obtain j where "re_double_spaces text j = Some m"
    using re_finditer_sound by blast
  from re_double_spaces_SomeD [OF this]
  show "m_start m + 2 \<le> m_end m \<and> m_end m \<le> length text
       \<and> py_slice text (int (m_start m)) (int (m_end m)) = replicate (m_end m - m_start m) 32"
    by (auto simp: m_group_def)
qed

lemma location_example:
  "map location (projr (check_double_spaces ascii_db [97, 10, 98, 32, 32, 99])) =
     [u ''Line 2, position 3'']"
  by (simp add: check_defs eval_simps)

text \<open>
  C10. The location of a double-spaces match is \<open>Line N, position P\<close>, where \<open>P\<close> is
  the index in the whole document at which the run of spaces begins and \<open>N\<close> is one more
  than the number of newlines before that index; in the document \<open>a\<close>, newline, \<open>b  c\<close>
  the match is at \<open>Line 2, position 3\<close>, while its column in line 2 is 1. The locations
  of the matches of repeated-words, missing-space-after-punct, space-before-punct,
  multiple-blank-lines and double-hyphen-emdash are \<open>Line N\<close> alone.
\<close>

theorem location_formats:
  "(\<exists>rs P. check_double_spaces db text = Inr rs
         \<and> map location rs = map (\<lambda>m. u ''Line '' @ str_int (get_line_number text (int (m_start m))) @ u '', position '' @ str_int (int (m_start m))) (filter P (re_finditer re_double_spaces text 0)))
   \<and> list_all (\<lambda>m. m_start m + 2 \<le> m_end m \<and> m_end m \<le> length text
         \<and> py_slice text (int (m_start m)) (int (m_end m)) = replicate (m_end m - m_start m) 32)
       (re_finditer re_double_spaces text 0)
   \<and> get_line_number text (int s) = 1 + int (length (filter (\<lambda>c. c = 10) (take s text)))
   \<and> (\<exists>rs P. check_repeated_words db text = Inr rs
         \<and> map location rs = map (\<lambda>m. u ''Line '' @ str_int (get_line_number text (int (m_start m)))) (filter P (re_finditer (re_repeated_words db) text 0)))
   \<and> (\<exists>rs P. check_missing_space_after_punct db text = Inr rs
         \<and> map location rs = map (\<lambda>m. u ''Line '' @ str_int (get_line_number text (int (m_start m)))) (filter P (re_finditer re_missing_space text 0)))
   \<and> (\<exists>rs P. check_space_before_punct db text = Inr rs
         \<and> map location rs = map (\<lambda>m. u ''Line '' @ str_int (get_line_number text (int (m_start m)))) (filter P (re_finditer (re_space_before_punct db) text 0)))
   \<and> (\<exists>rs P. check_multiple_blank_lines text = Inr rs
         \<and> map location rs = map (\<lambda>m. u ''Line '' @ str_int (get_line_number text (int (m_start m)))) (filter P (re_finditer re_blank_lines text 0)))
   \<and> (\<exists>rs P. check_double_hyphen_emdash db text = Inr rs
         \<and> map location rs = map (\<lambda>m. u ''Line '' @ str_int (get_line_number text (int (m_start m)))) (filter P (re_finditer (re_double_hyphen db) text 0)))
   \<and> map location (projr (check_double_spaces ascii_db [97, 10, 98, 32, 32, 99])) =
       [u ''Line 2, position 3'']"
proof -
  have ds: "(\<exists>rs P. check_double_spaces db text = Inr rs
         \<and> map location rs = map (\<lambda>m. u ''Line '' @ str_int (get_line_number text (int (m_start m))) @ u '', position '' @ str_int (int (m_start m))) (filter P (re_finditer re_double_spaces text 0)))"
    by (rule shape_map [OF double_spaces_shape])
      (auto dest!: double_spaces_body_SomeD simp: double_spaces_match_def)
  have repeated_words: "(\<exists>rs P. check_repeated_words db text = Inr rs
         \<and> map location rs = map (\<lambda>m. u ''Line '' @ str_int (get_line_number text (int (m_start m)))) (filter P (re_finditer (re_repeated_words db) text 0)))"
    by (rule shape_map [OF repeated_words_shape]) (auto dest!: repeated_words_body_SomeD)
  have missing_space: "(\<exists>rs P. check_missing_space_after_punct db text = Inr rs
         \<and> map location rs = map (\<lambda>m. u ''Line '' @ str_int (get_line_number text (int (m_start m)))) (filter P (re_finditer re_missing_space text 0)))"
    by (rule shape_map [OF missing_space_shape]) (auto dest!: missing_space_body_SomeD missing_space_match_SomeD)
  have space_before_punct: "(\<exists>rs P. check_space_before_punct db text = Inr rs
         \<and> map location rs = map (\<lambda>m. u ''Line '' @ str_int (get_line_number text (int (m_start m)))) (filter P (re_finditer (re_space_before_punct db) text 0)))"
    by (rule shape_map [OF space_before_punct_shape]) (auto dest!: space_before_punct_body_SomeD)
  have blank_lines: "(\<exists>rs P. check_multiple_blank_lines text = Inr rs
         \<and> map location rs = map (\<lambda>m. u ''Line '' @ str_int (get_line_number text (int (m_start m)))) (filter P (re_finditer re_blank_lines text 0)))"
    by (rule shape_map [OF blank_lines_shape]) (auto dest!: blank_lines_body_SomeD)
  have double_hyphen: "(\<exists>rs P. check_double_hyphen_emdash db text = Inr rs
         \<and> map location rs = map (\<lambda>m. u ''Line '' @ str_int (get_line_number text (int (m_start m)))) (filter P (re_finditer (re_double_hyphen db) text 0)))"
    by (rule shape_map [OF double_hyphen_shape]) (auto dest!: double_hyphen_body_SomeD)
  from ds double_spaces_span get_line_number_count repeated_words missing_space space_before_punct blank_lines double_hyphen location_example
  show ?thesis
    by (intro conjI)
qed

text \<open>
  C4, as the code has it. For repeated-words, missing-space-after-punct,
  space-before-punct and double-hyphen-emdash the text of a match is the substring
  \<open>text[start:end]\<close> of its span, and the spans are not empty and lie in the document.
  For double-spaces it is the \<open>repr\<close> of that substring: the run of spaces between two
  single quotes. For multiple-blank-lines it is the sentence that counts the blank lines,
  one less than the newlines of the run.
\<close>

theorem matched_text_of_point_findings:
  "(\<exists>rs P. check_repeated_words db text = Inr rs
         \<and> map match_text rs = map (\<lambda>m. py_slice text (int (m_start m)) (int (m_end m))) (filter P (re_finditer (re_repeated_words db) text 0)))
   \<and> list_all (\<lambda>m. m_start m < m_end m \<and> m_end m \<le> length text) (re_finditer (re_repeated_words db) text 0)
   \<and> (\<exists>rs P. check_missing_space_after_punct db text = Inr rs
         \<and> map match_text rs = map (\<lambda>m. py_slice text (int (m_start m)) (int (m_end m))) (filter P (re_finditer re_missing_space text 0)))
   \<and> list_all (\<lambda>m. m_start m < m_end m \<and> m_end m \<le> length text) (re_finditer re_missing_space text 0)
   \<and> (\<exists>rs P. check_space_before_punct db text = Inr rs
         \<and> map match_text rs = map (\<lambda>m. py_slice text (int (m_start m)) (int (m_end m))) (filter P (re_finditer (re_space_before_punct db) text 0)))
   \<and> list_all (\<lambda>m. m_start m < m_end m \<and> m_end m \<le> length text) (re_finditer (re_space_before_punct db) text 0)
   \<and> (\<exists>rs P. check_double_hyphen_emdash db text = Inr rs
         \<and> map match_text rs = map (\<lambda>m. py_slice text (int (m_start m)) (int (m_end m))) (filter P (re_finditer (re_double_hyphen db) text 0)))
   \<and> list_all (\<lambda>m. m_start m < m_end m \<and> m_end m \<le> length text) (re_finditer (re_double_hyphen db) text 0)
   \<and> (\<exists>rs P. check_double_spaces db text = Inr rs
         \<and> map match_text rs = map (\<lambda>m. [39] @ py_slice text (int (m_start m)) (int (m_end m)) @ [39]) (filter P (re_finditer re_double_spaces text 0)))
   \<and> list_all (\<lambda>m. m_start m + 2 \<le> m_end m \<and> m_end m \<le> length text
         \<and> py_slice text (int (m_start m)) (int (m_end m)) = replicate (m_end m - m_start m) 32)
       (re_finditer re_double_spaces text 0)
   \<and> (\<exists>rs P. check_multiple_blank_lines text = Inr rs
         \<and> map match_text rs = map (\<lambda>m. str_nat (m_end m - m_start m - 1) @ u '' consecutive blank lines'') (filter P (re_finditer re_blank_lines text 0)))
   \<and> list_all (\<lambda>m. m_start m < m_end m \<and> m_end m \<le> length text) (re_finditer re_blank_lines text 0)"
proof -
  have repeated_words: "(\<exists>rs P. check_repeated_words db text = Inr rs
         \<and> map match_text rs = map (\<lambda>m. py_slice text (int (m_start m)) (int (m_end m))) (filter P (re_finditer (re_repeated_words db) text 0)))"
    by (rule shape_map [OF repeated_words_shape]) (auto dest!: repeated_words_body_SomeD simp: m_group_def)
  have missing_space: "(\<exists>rs P. check_missing_space_after_punct db text = Inr rs
         \<and> map match_text rs = map (\<lambda>m. py_slice text (int (m_start m)) (int (m_end m))) (filter P (re_finditer re_missing_space text 0)))"
    by (rule shape_map [OF missing_space_shape]) (auto dest!: missing_space_body_SomeD missing_space_match_SomeD simp: m_group_def)
  have space_before_punct: "(\<exists>rs P. check_space_before_punct db text = Inr rs
         \<and> map match_text rs = map (\<lambda>m. py_slice text (int (m_start m)) (int (m_end m))) (filter P (re_finditer (re_space_before_punct db) text 0)))"
    by (rule shape_map [OF space_before_punct_shape]) (auto dest!: space_before_punct_body_SomeD simp: m_group_def)
  have double_hyphen: "(\<exists>rs P. check_double_hyphen_emdash db text = Inr rs
         \<and> map match_text rs = map (\<lambda>m. py_slice text (int (m_start m)) (int (m_end m))) (filter P (re_finditer (re_double_hyphen db) text 0)))"
    by (rule shape_map [OF double_hyphen_shape]) (auto dest!: double_hyphen_body_SomeD simp: m_group_def)
  have ds: "(\<exists>rs P. check_double_spaces db text = Inr rs
         \<and> map match_text rs = map (\<lambda>m. [39] @ py_slice text (int (m_start m)) (int (m_end m)) @ [39]) (filter P (re_finditer re_double_spaces text 0)))"
    by (rule shape_map [OF double_spaces_shape]) (use double_spaces_text in blast)
  have bl: "(\<exists>rs P. check_multiple_blank_lines text = Inr rs
         \<and> map match_text rs = map (\<lambda>m. str_nat (m_end m - m_start m - 1) @ u '' consecutive blank lines'') (filter P (re_finditer re_blank_lines text 0)))"
    by (rule shape_map [OF blank_lines_shape]) (use blank_lines_text in blast)
  from repeated_words repeated_words_bounds missing_space missing_space_bounds space_before_punct space_before_punct_bounds double_hyphen double_hyphen_bounds ds double_spaces_span bl blank_lines_bounds
  show ?thesis
    by (intro conjI)
qed

text \<open>
  C4 as it is stated fails for double-spaces: on \<open>Hello  world\<close> the span of the one
  match is \<open>[5, 7)\<close>, the substring there is the two spaces, and the text of the match
  is the four characters quote, space, space, quote.
\<close>

theorem matched_text_double_spaces_counterexample:
  "re_finditer re_double_spaces (u ''Hello  world'') 0 = [\<lparr>m_start = 5, m_end = 7, m_groups = []\<rparr>]
   \<and> py_slice (u ''Hello  world'') 5 7 = [32, 32]
   \<and> map match_text (projr (check_double_spaces ascii_db (u ''Hello  world''))) = [[39, 32, 32, 39]]
   \<and> map match_text (projr (check_double_spaces ascii_db (u ''Hello  world''))) \<noteq>
       [py_slice (u ''Hello  world'') 5 7]"
  by (simp add: check_defs eval_simps)


section \<open>Missing space after punctuation\<close>

text \<open>
  The scan of this pattern finds every place where one of \<open>. , ; : ! ?\<close> stands right
  before an ASCII letter (two such places cannot overlap), and the check keeps those
  that neither of its two exclusions removes.
\<close>

lemma punct_not_letter: "is_punct c \<Longrightarrow> \<not> ascii_letter c"
  by (auto simp: is_punct_def ascii_letter_def ascii_upper_def ascii_lower_def u_def)

lemma re_missing_space_NoneD:
  "re_missing_space text i = None \<Longrightarrow> \<not> (Suc i < length text \<and> is_punct (text ! i) \<and> ascii_letter (text ! Suc i))"
  by (simp add: re_missing_space_def split: if_splits)

lemma missing_space_scan:
  "re_finditer re_missing_space text i =
     map (\<lambda>j. \<lparr>m_start = j, m_end = j + 2, m_groups = [(j, j + 1), (j + 1, j + 2)]\<rparr>)
       (filter (\<lambda>j. is_punct (text ! j) \<and> ascii_letter (text ! Suc j)) [i..<length text - 1])"
proof (induction re_missing_space "text" i rule: re_finditer.induct)
  case (1 t i)
  let ?occ = "\<lambda>j. is_punct (t ! j) \<and> ascii_letter (t ! Suc j)"
  let ?M = "\<lambda>j. \<lparr>m_start = j, m_end = j + 2, m_groups = [(j, j + 1), (j + 1, j + 2)]\<rparr>"
  show ?case
  proof (cases "length t < i")
    case True
    then show ?thesis
      by (simp add: re_finditer.simps [of _ t i])
  next
    case False
    show ?thesis
    proof (cases "re_missing_space t i")
      case None
      from re_missing_space_NoneD [OF None] have no: "\<not> (Suc i < length t \<and> ?occ i)" .
      have "filter ?occ [i..<length t - 1] = filter ?occ [Suc i..<length t - 1]"
      proof (cases "i < length t - 1")
        case True
        with no have "\<not> ?occ i"
          by auto
        with True show ?thesis
          by (simp add: upt_conv_Cons)
      next
        case False
        then show ?thesis
          by simp
      qed
      with "1.hyps"(1) [OF False None] False None show ?thesis
        by (simp add: re_finditer.simps [of _ t i])
    next
      case (Some m)
      from re_missing_space_SomeD [OF Some]
      have m: "m = ?M i" and len: "i + 2 \<le> length t" and occ: "?occ i"
        by simp_all
      from occ have "\<not> is_punct (t ! Suc i)"
        using punct_not_letter by blast
      then have skip: "filter ?occ [Suc i..<length t - 1] = filter ?occ [i + 2..<length t - 1]"
        by (cases "Suc i < length t - 1") (simp_all add: upt_conv_Cons)
      from len occ have "filter ?occ [i..<length t - 1] = i # filter ?occ [Suc i..<length t - 1]"
        by (simp add: upt_conv_Cons)
      with skip have split: "filter ?occ [i..<length t - 1] = i # filter ?occ [i + 2..<length t - 1]"
        by simp
      have e: "(if i < m_end m then m_end m else Suc i) = i + 2"
        by (simp add: m)
      from "1.hyps"(2) [OF False Some] have "re_finditer re_missing_space t (i + 2) =
          map ?M (filter ?occ [i + 2..<length t - 1])"
        by (simp only: e)
      with False Some split m show ?thesis
        by (simp add: re_finditer.simps [of _ t i])
    qed
  qed
qed


lemma slice_one: "j < length text \<Longrightarrow> e = int j + 1 \<Longrightarrow> py_slice text (int j) e = [text ! j]"
proof -
  assume j: "j < length text" and e: "e = int j + 1"
  have "py_slice text (int j) (int (Suc j)) = take 1 (drop j text)"
    using j by (simp only: py_slice_nat) (simp add: min_def)
  also have "\<dots> = [text ! j]"
    using j by (simp add: take_Suc_conv_app_nth)
  finally show ?thesis
    using e by (simp add: add.commute)
qed

lemma slice_two:
  "j + 2 \<le> length text \<Longrightarrow> e = int j + 2 \<Longrightarrow> py_slice text (int j) e = [text ! j, text ! Suc j]"
proof -
  assume j: "j + 2 \<le> length text" and e: "e = int j + 2"
  have "py_slice text (int j) (int (j + 2)) = take 2 (drop j text)"
    using j by (simp only: py_slice_nat) (simp add: min_def)
  also have "\<dots> = [text ! j, text ! Suc j]"
    using j by (simp add: numeral_2_eq_2 take_Suc_conv_app_nth)
  finally show ?thesis
    using e by (simp add: add.commute)
qed

lemma missing_space_body_at:
  assumes "j + 2 \<le> length text"
  shows "missing_space_body db text \<lparr>m_start = j, m_end = j + 2, m_groups = [(j, j + 1), (j + 1, j + 2)]\<rparr> =
     Inr (if list_ex (\<lambda>x. py_in x (str_lower db (py_slice text (max 0 (int j - 10)) (int j)))) url_markers
             \<or> (text ! j = 46 \<and> 0 < j \<and> isdigit db (text ! (j - 1)))
          then None
          else Some
            \<lparr>rule_id = u ''missing-space-after-punct'',
             rule_name = u ''Missing Space After Punctuation'',
             category = u ''spacing'',
             severity = u ''medium'',
             match_text = [text ! j, text ! Suc j],
             suggestion = [text ! j, 32, text ! Suc j],
             location = u ''Line '' @ str_int (get_line_number text (int j)),
             match_context = get_context text (int j) (int j + 2) 30\<rparr>)"
proof -
  let ?m = "\<lparr>m_start = j, m_end = j + 2, m_groups = [(j, j + 1), (j + 1, j + 2)]\<rparr>"
  from assms have j: "j < length text" and j': "Suc j < length text" and jl: "j \<le> length text"
    by simp_all
  have g1: "m_group_n text ?m 1 = Inr [text ! j]"
    using j by (simp add: m_group_n_def slice_one)
  have g2: "m_group_n text ?m 2 = Inr [text ! Suc j]"
    using slice_one [OF j', of "int j + 2"] by (simp add: m_group_n_def add.commute)
  have g: "m_group text ?m = [text ! j, text ! Suc j]"
    using assms by (simp add: m_group_def slice_two)
  have mk: "missing_space_match text ?m = Inr (Some
            \<lparr>rule_id = u ''missing-space-after-punct'',
             rule_name = u ''Missing Space After Punctuation'',
             category = u ''spacing'',
             severity = u ''medium'',
             match_text = [text ! j, text ! Suc j],
             suggestion = [text ! j, 32, text ! Suc j],
             location = u ''Line '' @ str_int (get_line_number text (int j)),
             match_context = get_context text (int j) (int j + 2) 30\<rparr>)"
    unfolding missing_space_match_def g1 g2 g err_bind_Inr
    by (simp add: u_def add.commute)
  have dot: "([text ! j] = u ''.'') = (text ! j = 46)"
    by (simp add: u_def)
  show ?thesis
    unfolding missing_space_body_def Let_def g1 mk err_bind_Inr dot
    using jl by (simp add: py_index_pred)
qed

lemma missing_space_rule:
  "check_missing_space_after_punct db text =
     Inr (map (\<lambda>j.
            \<lparr>rule_id = u ''missing-space-after-punct'',
             rule_name = u ''Missing Space After Punctuation'',
             category = u ''spacing'',
             severity = u ''medium'',
             match_text = [text ! j, text ! Suc j],
             suggestion = [text ! j, 32, text ! Suc j],
             location = u ''Line '' @ str_int (get_line_number text (int j)),
             match_context = get_context text (int j) (int j + 2) 30\<rparr>)
          (filter (\<lambda>j. \<not> (list_ex (\<lambda>x. py_in x (str_lower db (py_slice text (max 0 (int j - 10)) (int j)))) url_markers
                          \<or> (text ! j = 46 \<and> 0 < j \<and> isdigit db (text ! (j - 1)))))
             (filter (\<lambda>j. is_punct (text ! j) \<and> ascii_letter (text ! Suc j)) [0..<length text - 1])))"
proof -
  let ?M = "\<lambda>j. \<lparr>m_start = j, m_end = j + 2, m_groups = [(j, j + 1), (j + 1, j + 2)]\<rparr>"
  let ?occ = "\<lambda>j. is_punct (text ! j) \<and> ascii_letter (text ! Suc j)"
  let ?excl = "\<lambda>j. list_ex (\<lambda>x. py_in x (str_lower db (py_slice text (max 0 (int j - 10)) (int j)))) url_markers
                          \<or> (text ! j = 46 \<and> 0 < j \<and> isdigit db (text ! (j - 1)))"
  let ?R = "\<lambda>j. \<lparr>rule_id = u ''missing-space-after-punct'',
             rule_name = u ''Missing Space After Punctuation'',
             category = u ''spacing'',
             severity = u ''medium'',
             match_text = [text ! j, text ! Suc j],
             suggestion = [text ! j, 32, text ! Suc j],
             location = u ''Line '' @ str_int (get_line_number text (int j)),
             match_context = get_context text (int j) (int j + 2) 30\<rparr>"
  let ?js = "filter ?occ [0..<length text - 1]"
  let ?f = "\<lambda>m. if ?excl (m_start m) then None else Some (?R (m_start m))"
  have body: "missing_space_body db text m = Inr (?f m)" if "m \<in> set (map ?M ?js)" for m
  proof -
    from that obtain j where j: "j < length text - 1" and m: "m = ?M j"
      by auto
    from j have "j + 2 \<le> length text"
      by simp
    from missing_space_body_at [OF this, of db] show ?thesis
      by (simp add: m)
  qed
  have "check_missing_space_after_punct db text = for_matches (missing_space_body db text) (map ?M ?js)"
    by (simp only: check_missing_space_after_punct_def missing_space_scan)
  also have "\<dots> = Inr (List.map_filter ?f (map ?M ?js))"
    by (rule for_matches_pure) (rule body)
  also have "List.map_filter ?f (map ?M ?js) = map (\<lambda>m. ?R (m_start m)) (filter (\<lambda>m. \<not> ?excl (m_start m)) (map ?M ?js))"
    by (rule map_filter_as_filter)
  also have "\<dots> = map ?R (filter (\<lambda>j. \<not> ?excl j) ?js)"
    by (simp add: filter_map comp_def)
  finally show ?thesis .
qed

lemma missing_space_example_comma:
  "check_missing_space_after_punct ascii_db (u ''Hello,world'') =
     Inr [\<lparr>rule_id = u ''missing-space-after-punct'',
            rule_name = u ''Missing Space After Punctuation'',
            category = u ''spacing'',
            severity = u ''medium'',
            match_text = u '',w'',
            suggestion = u '', w'',
            location = u ''Line 1'',
            match_context = u ''Hello,world''\<rparr>]"
  by (simp add: check_defs eval_simps)

lemma missing_space_example_decimal:
  "check_missing_space_after_punct ascii_db (u ''The price is 3.5 dollars'') = Inr []"
  by (simp add: check_defs eval_simps)



end
